theory Spec2Isabelle
  imports Main "HOL-Library.Word"
begin

section \<open>The key-issuance service of \<^verbatim>\<open>index.js\<close>\<close>

text \<open>
  The service is an Express application over one SQLite connection. Every handler is a
  function from the store (the connection's tables and settings) to the store and the
  HTTP response. The asynchronous callbacks of \<^verbatim>\<open>db.run\<close>, \<^verbatim>\<open>db.get\<close> and
  \<^verbatim>\<open>db.all\<close> are run in the order in which the statements are issued, one handler at a
  time; the interleaving of concurrent requests is outside this development.
\<close>

subsection \<open>Values, rows and tables\<close>

text \<open>
  A timestamp column holds the text that \<^verbatim>\<open>datetime('now')\<close> wrote. The model keeps the
  instant in seconds since the epoch, which is what \<^verbatim>\<open>strftime('%s', _)\<close> reads back
  from that text, and takes the rendering as text as a parameter where the text itself
  is output.
\<close>

datatype sqlval = SNull | SInt int | SText string | STime int

text \<open>A result row as node-sqlite3 hands it to a callback: an object from column names to values.\<close>

type_synonym row = "(string \<times> sqlval) list"

definition field :: "row \<Rightarrow> string \<Rightarrow> sqlval option" where
  "field r c = map_of r c"

record user_row =
  u_id :: int
  firstname :: string
  lastname :: string
  email :: string
  is_online :: int
  last_seen :: "int option"
  u_created_at :: int

record key_row =
  k_id :: int
  api_key :: string
  k_created_at :: int

text \<open>
  The connection: the two tables, the \<^verbatim>\<open>sqlite_sequence\<close> entry that
  \<^verbatim>\<open>AUTOINCREMENT\<close> keeps for \<^verbatim>\<open>users\<close>, the \<^verbatim>\<open>foreign_keys\<close> setting (off when
  a connection is opened), and the snapshot to which an open transaction rolls back.
\<close>

record store =
  users :: "user_row list"
  apikeys :: "key_row list"
  user_seq :: int
  foreign_keys :: bool
  txn :: "(user_row list \<times> key_row list \<times> int) option"

definition empty_store :: store where
  "empty_store = \<lparr>users = [], apikeys = [], user_seq = 0, foreign_keys = False, txn = None\<rparr>"

subsection \<open>Statements\<close>

text \<open>
  A statement fails either because the schema forbids it or because the store cannot
  carry it out (I/O, a lock). The second kind is an input: \<open>Some m\<close> makes the statement
  fail with message \<open>m\<close> and leaves the store as it was, \<open>None\<close> lets it run by the
  schema's rules.
\<close>

datatype db_error = DbError (message: string)

type_synonym fault = "string option"

definition next_user_id :: "store \<Rightarrow> int" where
  "next_user_id st = fold max (map u_id (users st)) (user_seq st) + 1"

definition unique_email_failed :: string where
  "unique_email_failed = ''SQLITE_CONSTRAINT: UNIQUE constraint failed: users.email''"

text \<open>\<^verbatim>\<open>INSERT INTO users (firstname, lastname, email) VALUES (?,?,?)\<close>; the result is \<^verbatim>\<open>this.lastID\<close>.\<close>

definition insert_user ::
  "fault \<Rightarrow> string \<Rightarrow> string \<Rightarrow> string \<Rightarrow> int \<Rightarrow> store \<Rightarrow> db_error + (int \<times> store)" where
  "insert_user flt fn ln em now st =
     (case flt of
        Some m \<Rightarrow> Inl (DbError m)
      | None \<Rightarrow>
          if em \<in> set (map email (users st)) then Inl (DbError unique_email_failed)
          else
            let uid = next_user_id st;
                u = \<lparr>u_id = uid, firstname = fn, lastname = ln, email = em,
                     is_online = 0, last_seen = None, u_created_at = now\<rparr>
            in Inr (uid, st\<lparr>users := users st @ [u], user_seq := uid\<rparr>))"

text \<open>\<^verbatim>\<open>INSERT INTO apikeys (id, api_key) VALUES (?,?)\<close>\<close>

definition insert_key :: "fault \<Rightarrow> int \<Rightarrow> string \<Rightarrow> int \<Rightarrow> store \<Rightarrow> db_error + store" where
  "insert_key flt uid k now st =
     (case flt of
        Some m \<Rightarrow> Inl (DbError m)
      | None \<Rightarrow>
          if uid \<in> set (map k_id (apikeys st))
          then Inl (DbError ''SQLITE_CONSTRAINT: UNIQUE constraint failed: apikeys.id'')
          else if k \<in> set (map api_key (apikeys st))
          then Inl (DbError ''SQLITE_CONSTRAINT: UNIQUE constraint failed: apikeys.api_key'')
          else if foreign_keys st \<and> uid \<notin> set (map u_id (users st))
          then Inl (DbError ''SQLITE_CONSTRAINT: FOREIGN KEY constraint failed'')
          else Inr (st\<lparr>apikeys := apikeys st @ [\<lparr>k_id = uid, api_key = k, k_created_at = now\<rparr>]\<rparr>))"

text \<open>
  The parameter bound to \<^verbatim>\<open>WHERE id = ?\<close>. Only an integer equals an integer key; a
  NULL (and any other value) selects no row.
\<close>

definition id_is :: "sqlval \<Rightarrow> int \<Rightarrow> bool" where
  "id_is p i = (p = SInt i)"

text \<open>A property of a row object as a statement parameter: \<^verbatim>\<open>undefined\<close> is bound as NULL.\<close>

definition bind :: "sqlval option \<Rightarrow> sqlval" where
  "bind v = (case v of None \<Rightarrow> SNull | Some x \<Rightarrow> x)"

text \<open>\<^verbatim>\<open>DELETE FROM apikeys WHERE id = ?\<close>\<close>

definition delete_key :: "fault \<Rightarrow> sqlval \<Rightarrow> store \<Rightarrow> db_error + store" where
  "delete_key flt p st =
     (case flt of
        Some m \<Rightarrow> Inl (DbError m)
      | None \<Rightarrow> Inr (st\<lparr>apikeys := filter (\<lambda>a. \<not> id_is p (k_id a)) (apikeys st)\<rparr>))"

text \<open>
  \<^verbatim>\<open>DELETE FROM users WHERE id = ?\<close>. With foreign keys enforced, \<^verbatim>\<open>ON DELETE CASCADE\<close>
  removes the key rows of the deleted users.
\<close>

definition delete_user :: "fault \<Rightarrow> sqlval \<Rightarrow> store \<Rightarrow> db_error + store" where
  "delete_user flt p st =
     (case flt of
        Some m \<Rightarrow> Inl (DbError m)
      | None \<Rightarrow>
          Inr (st\<lparr>users := filter (\<lambda>u. \<not> id_is p (u_id u)) (users st),
                  apikeys := (if foreign_keys st
                              then filter (\<lambda>a. \<not> id_is p (k_id a)) (apikeys st)
                              else apikeys st)\<rparr>))"

text \<open>\<^verbatim>\<open>UPDATE users SET is_online = 1, last_seen = datetime('now') WHERE id = ?\<close>\<close>

definition update_seen :: "fault \<Rightarrow> sqlval \<Rightarrow> int \<Rightarrow> store \<Rightarrow> db_error + store" where
  "update_seen flt p now st =
     (case flt of
        Some m \<Rightarrow> Inl (DbError m)
      | None \<Rightarrow>
          Inr (st\<lparr>users := map (\<lambda>u. if id_is p (u_id u)
                                     then u\<lparr>is_online := 1, last_seen := Some now\<rparr>
                                     else u) (users st)\<rparr>))"

text \<open>\<^verbatim>\<open>SELECT * FROM apikeys WHERE api_key = ?\<close> through \<^verbatim>\<open>db.get\<close>: the first row, if any.\<close>

definition key_columns :: "key_row \<Rightarrow> row" where
  "key_columns a =
     [(''id'', SInt (k_id a)), (''api_key'', SText (api_key a)), (''created_at'', STime (k_created_at a))]"

definition select_key :: "fault \<Rightarrow> string \<Rightarrow> store \<Rightarrow> db_error + row option" where
  "select_key flt k st =
     (case flt of
        Some m \<Rightarrow> Inl (DbError m)
      | None \<Rightarrow> Inr (map_option key_columns (find (\<lambda>a. api_key a = k) (apikeys st))))"

text \<open>
  A statement issued without a callback: the handler goes on whatever the outcome, and a
  failed statement leaves the store as it was.
\<close>

definition fire_and_forget :: "db_error + store \<Rightarrow> store \<Rightarrow> store" where
  "fire_and_forget r st = (case r of Inl _ \<Rightarrow> st | Inr st' \<Rightarrow> st')"

subsection \<open>Responses\<close>

datatype jval =
    JBool bool
  | JStr string
  | JVal "sqlval option"
  | JRow row
  | JRows "row list"

datatype response =
    Json nat "(string \<times> jval) list"
  | Csv string
  | Uncaught

definition status :: "response \<Rightarrow> nat" where
  "status r = (case r of Json s _ \<Rightarrow> s | Csv _ \<Rightarrow> 200 | Uncaught \<Rightarrow> 0)"

definition body :: "response \<Rightarrow> string \<Rightarrow> jval option" where
  "body r k = (case r of Json _ b \<Rightarrow> map_of b k | _ \<Rightarrow> None)"

text \<open>
  JavaScript truthiness of a request string that may be absent, and of a column value.
  A field of a request body or of a query is a string or absent (\<open>None\<close>, for
  \<^verbatim>\<open>undefined\<close>); other JSON values are outside the model.
\<close>

definition truthy :: "string option \<Rightarrow> bool" where
  "truthy s = (case s of None \<Rightarrow> False | Some t \<Rightarrow> t \<noteq> [])"

definition truthy_val :: "sqlval option \<Rightarrow> bool" where
  "truthy_val v =
     (case v of
        None \<Rightarrow> False
      | Some SNull \<Rightarrow> False
      | Some (SInt i) \<Rightarrow> i \<noteq> 0
      | Some (SText s) \<Rightarrow> s \<noteq> []
      | Some (STime _) \<Rightarrow> True)"

subsection \<open>The key generator\<close>

type_synonym byte = "8 word"

definition hex_digit :: "nat \<Rightarrow> char" where
  "hex_digit n = ''0123456789abcdef'' ! n"

definition byte_hex :: "byte \<Rightarrow> string" where
  "byte_hex b = [hex_digit (unat b div 16), hex_digit (unat b mod 16)]"

definition toString_hex :: "byte list \<Rightarrow> string" where
  "toString_hex bs = concat (map byte_hex bs)"

text \<open>\<^verbatim>\<open>toUpperCase\<close> on ASCII, which is all that a hexadecimal text holds.\<close>

definition upper_char :: "char \<Rightarrow> char" where
  "upper_char c =
     (case map_of (zip ''abcdefghijklmnopqrstuvwxyz'' ''ABCDEFGHIJKLMNOPQRSTUVWXYZ'') c of
        Some C \<Rightarrow> C
      | None \<Rightarrow> c)"

definition toUpperCase :: "string \<Rightarrow> string" where
  "toUpperCase s = map upper_char s"

text \<open>\<^verbatim>\<open>crypto.randomBytes(n)\<close>: the next \<open>n\<close> bytes of the entropy source.\<close>

definition randomBytes :: "(nat \<Rightarrow> byte) \<Rightarrow> nat \<Rightarrow> byte list" where
  "randomBytes src n = map src [0..<n]"

definition makeApiKey :: "(nat \<Rightarrow> byte) \<Rightarrow> string" where
  "makeApiKey src = ''UWUNTU-API-'' @ toUpperCase (toString_hex (randomBytes src 8))"

subsection \<open>Validation of a key\<close>

text \<open>The regular expression \<^verbatim>\<open>/^UWUNTU-API-[A-F0-9]{16}$/\<close>.\<close>

definition key_char :: "char \<Rightarrow> bool" where
  "key_char c = (c \<in> set ''ABCDEF0123456789'')"

definition re_test :: "string \<Rightarrow> bool" where
  "re_test s =
     (take 11 s = ''UWUNTU-API-'' \<and> length (drop 11 s) = 16 \<and> list_all key_char (drop 11 s))"

text \<open>\<^verbatim>\<open>row.status || 'active'\<close>\<close>

definition or_default :: "sqlval option \<Rightarrow> string \<Rightarrow> jval" where
  "or_default v d = (if truthy_val v then JVal v else JStr d)"

text \<open>
  \<^verbatim>\<open>GET /api/validate\<close>. \<open>f_get\<close> and \<open>f_upd\<close> are the faults of the lookup and of the
  update of \<^verbatim>\<open>last_seen\<close>; the error of the update is logged and the answer is the same.
\<close>

definition validateKey ::
  "fault \<Rightarrow> fault \<Rightarrow> string option \<Rightarrow> int \<Rightarrow> store \<Rightarrow> store \<times> response" where
  "validateKey f_get f_upd key now st =
     (if \<not> truthy key
      then (st, Json 400 [(''valid'', JBool False), (''reason'', JStr ''missing_key'')])
      else if \<not> re_test (the key)
      then (st, Json 400 [(''valid'', JBool False), (''reason'', JStr ''invalid_format'')])
      else
        (case select_key f_get (the key) st of
           Inl err \<Rightarrow> (st, Json 500 [(''valid'', JBool False), (''reason'', JStr ''db_error'')])
         | Inr None \<Rightarrow>
             (st, Json 404 [(''valid'', JBool False), (''reason'', JStr ''not_found''),
                            (''message'', JStr ''API key tidak ditemukan.'')])
         | Inr (Some r) \<Rightarrow>
             (fire_and_forget (update_seen f_upd (bind (field r ''id'')) now st) st,
              Json 200 [(''valid'', JBool True),
                        (''key'', JVal (field r ''api_key'')),
                        (''status'', or_default (field r ''status'') ''active''),
                        (''createdAt'', JVal (field r ''created_at'')),
                        (''message'', JStr ''API key valid dan last_seen diupdate.'')])))"

subsection \<open>Joined rows\<close>

text \<open>
  \<^verbatim>\<open>FROM users u LEFT JOIN apikeys a ON a.id = u.id\<close>: every user with each of its key
  rows, or once with no key row when it has none.
\<close>

definition left_join :: "user_row list \<Rightarrow> key_row list \<Rightarrow> (user_row \<times> key_row option) list" where
  "left_join us ks =
     concat (map (\<lambda>u. case filter (\<lambda>a. k_id a = u_id u) ks of
                          [] \<Rightarrow> [(u, None)]
                        | m \<Rightarrow> map (\<lambda>a. (u, Some a)) m) us)"

text \<open>\<^verbatim>\<open>ORDER BY u.id ASC\<close>\<close>

definition order_by_id :: "(user_row \<times> key_row option) list \<Rightarrow> (user_row \<times> key_row option) list" where
  "order_by_id js = sort_key (\<lambda>j. u_id (fst j)) js"

definition time_or_null :: "int option \<Rightarrow> sqlval" where
  "time_or_null t = (case t of None \<Rightarrow> SNull | Some x \<Rightarrow> STime x)"

definition a_api_key :: "key_row option \<Rightarrow> sqlval" where
  "a_api_key a = (case a of None \<Rightarrow> SNull | Some k \<Rightarrow> SText (api_key k))"

definition a_created_at :: "key_row option \<Rightarrow> sqlval" where
  "a_created_at a = (case a of None \<Rightarrow> SNull | Some k \<Rightarrow> STime (k_created_at k))"

subsection \<open>Saving a user with its key\<close>

record save_body =
  b_firstname :: "string option"
  b_lastname :: "string option"
  b_email :: "string option"
  b_apiKey :: "string option"

record save_faults =
  on_insert_user :: fault
  on_insert_key :: fault
  on_undo_user :: fault
  on_fetch :: fault

text \<open>\<^verbatim>\<open>err.message && err.message.includes('UNIQUE')\<close>\<close>

fun str_includes :: "string \<Rightarrow> string \<Rightarrow> bool" where
  "str_includes [] p = (p = [])"
| "str_includes (c # cs) p = (take (length p) (c # cs) = p \<or> str_includes cs p)"

definition mentions_unique :: "db_error \<Rightarrow> bool" where
  "mentions_unique err = (message err \<noteq> [] \<and> str_includes (message err) ''UNIQUE'')"

text \<open>The row fetched after a save, through \<^verbatim>\<open>db.get\<close>: the first joined row of the user.\<close>

definition saved_columns :: "user_row \<times> key_row option \<Rightarrow> row" where
  "saved_columns j =
     [(''id'', SInt (u_id (fst j))),
      (''firstname'', SText (firstname (fst j))),
      (''lastname'', SText (lastname (fst j))),
      (''email'', SText (email (fst j))),
      (''user_created_at'', STime (u_created_at (fst j))),
      (''api_key'', a_api_key (snd j)),
      (''apikey_created_at'', a_created_at (snd j))]"

definition select_saved :: "fault \<Rightarrow> int \<Rightarrow> store \<Rightarrow> db_error + row option" where
  "select_saved flt uid st =
     (case flt of
        Some m \<Rightarrow> Inl (DbError m)
      | None \<Rightarrow>
          Inr (case filter (\<lambda>j. u_id (fst j) = uid) (left_join (users st) (apikeys st)) of
                 [] \<Rightarrow> None
               | j # _ \<Rightarrow> Some (saved_columns j)))"

text \<open>
  \<^verbatim>\<open>POST /api/save-user\<close>. After a failed insert of the key the handler issues the
  \<^verbatim>\<open>DELETE\<close> of the user row without a callback and answers at once.
\<close>

definition saveUser :: "save_faults \<Rightarrow> save_body \<Rightarrow> int \<Rightarrow> store \<Rightarrow> store \<times> response" where
  "saveUser flts b now st =
     (if \<not> truthy (b_firstname b) \<or> \<not> truthy (b_lastname b) \<or> \<not> truthy (b_email b)
         \<or> \<not> truthy (b_apiKey b)
      then (st, Json 400 [(''error'', JStr ''firstname, lastname, email and apiKey required'')])
      else
        (case insert_user (on_insert_user flts) (the (b_firstname b)) (the (b_lastname b))
                (the (b_email b)) now st of
           Inl err \<Rightarrow>
             if mentions_unique err
             then (st, Json 409 [(''error'', JStr ''Email already exists'')])
             else (st, Json 500 [(''error'', JStr ''DB insert user failed''),
                                 (''details'', JStr (message err))])
         | Inr (userId, st1) \<Rightarrow>
             (case insert_key (on_insert_key flts) userId (the (b_apiKey b)) now st1 of
                Inl err2 \<Rightarrow>
                  (fire_and_forget (delete_user (on_undo_user flts) (SInt userId) st1) st1,
                   Json 500 [(''error'', JStr ''DB insert apikey failed''),
                             (''details'', JStr (message err2))])
              | Inr st2 \<Rightarrow>
                  (case select_saved (on_fetch flts) userId st2 of
                     Inl e \<Rightarrow>
                       (st2, Json 500 [(''error'', JStr ''DB fetch after save failed''),
                                       (''details'', JStr (message e))])
                   | Inr None \<Rightarrow> (st2, Uncaught)
                   | Inr (Some r) \<Rightarrow>
                       (st2, Json 200 [(''success'', JBool True), (''user'', JRow r)])))))"

subsection \<open>The administrator's session\<close>

record session =
  adminId :: "int option"
  adminEmail :: "string option"

definition unauthorized :: response where
  "unauthorized = Json 401 [(''error'', JStr ''Unauthorized'')]"

text \<open>
  The middleware \<^verbatim>\<open>requireAdmin(req, res, next)\<close>; \<open>None\<close> is a request without a
  session object, and an admin id is truthy when it is a number other than 0.
\<close>

definition requireAdmin ::
  "session option \<Rightarrow> (store \<Rightarrow> store \<times> response) \<Rightarrow> store \<Rightarrow> store \<times> response" where
  "requireAdmin sess next st =
     (case sess of
        None \<Rightarrow> (st, unauthorized)
      | Some s \<Rightarrow>
          (case adminId s of
             None \<Rightarrow> (st, unauthorized)
           | Some i \<Rightarrow> if i \<noteq> 0 then next st else (st, unauthorized)))"

subsection \<open>Listing the users\<close>

definition ONLINE_WINDOW_SECONDS :: int where
  "ONLINE_WINDOW_SECONDS = 30 * 24 * 3600"

text \<open>
  \<^verbatim>\<open>CASE WHEN u.last_seen IS NOT NULL AND (strftime('%s','now') - strftime('%s', u.last_seen)) <= W THEN 1 ELSE 0 END\<close>
\<close>

definition online_now :: "int \<Rightarrow> int option \<Rightarrow> int" where
  "online_now now seen =
     (case seen of
        None \<Rightarrow> 0
      | Some t \<Rightarrow> if now - t \<le> ONLINE_WINDOW_SECONDS then 1 else 0)"

definition listed_columns :: "int \<Rightarrow> user_row \<times> key_row option \<Rightarrow> row" where
  "listed_columns now j =
     [(''id'', SInt (u_id (fst j))),
      (''firstname'', SText (firstname (fst j))),
      (''lastname'', SText (lastname (fst j))),
      (''email'', SText (email (fst j))),
      (''last_seen'', time_or_null (last_seen (fst j))),
      (''online_now'', SInt (online_now now (last_seen (fst j)))),
      (''user_created_at'', STime (u_created_at (fst j))),
      (''api_key'', a_api_key (snd j)),
      (''apikey_created_at'', a_created_at (snd j))]"

definition select_listed :: "fault \<Rightarrow> int \<Rightarrow> store \<Rightarrow> db_error + row list" where
  "select_listed flt now st =
     (case flt of
        Some m \<Rightarrow> Inl (DbError m)
      | None \<Rightarrow>
          Inr (map (listed_columns now) (order_by_id (left_join (users st) (apikeys st)))))"

definition listUsers :: "fault \<Rightarrow> int \<Rightarrow> store \<Rightarrow> store \<times> response" where
  "listUsers flt now st =
     (case select_listed flt now st of
        Inl err \<Rightarrow> (st, Json 500 [(''error'', JStr (message err))])
      | Inr rows \<Rightarrow> (st, Json 200 [(''users'', JRows rows)]))"

subsection \<open>Revoking a key\<close>

text \<open>
  The result of \<^verbatim>\<open>Number(req.params.id)\<close>: not a number, an integer, or a number that
  is no integer (a fraction or an infinity). The last two kinds of number other than 0 are
  truthy; bound to a statement, only an integer can equal a key.
\<close>

datatype jsnum = NaN | JInt int | JOther

definition truthy_num :: "jsnum \<Rightarrow> bool" where
  "truthy_num n = (case n of NaN \<Rightarrow> False | JInt i \<Rightarrow> i \<noteq> 0 | JOther \<Rightarrow> True)"

definition bind_num :: "jsnum \<Rightarrow> sqlval" where
  "bind_num n = (case n of JInt i \<Rightarrow> SInt i | _ \<Rightarrow> SNull)"

definition success :: response where
  "success = Json 200 [(''success'', JBool True)]"

definition revokeKey :: "fault \<Rightarrow> jsnum \<Rightarrow> store \<Rightarrow> store \<times> response" where
  "revokeKey flt n st =
     (case delete_key flt (bind_num n) st of
        Inl err \<Rightarrow> (st, Json 500 [(''error'', JStr (message err))])
      | Inr st' \<Rightarrow> (st', success))"

subsection \<open>Export as CSV\<close>

definition dq :: char where
  "dq = CHR 0x22"

definition nl :: char where
  "nl = CHR 0x0A"

fun dec :: "nat \<Rightarrow> string" where
  "dec n = (if n < 10 then [''0123456789'' ! n] else dec (n div 10) @ [''0123456789'' ! (n mod 10)])"

text \<open>\<^verbatim>\<open>String(v)\<close> of a column value that is not null; \<open>dt\<close> is the text of a timestamp.\<close>

definition String_int :: "int \<Rightarrow> string" where
  "String_int i = (if i < 0 then CHR ''-'' # dec (nat (- i)) else dec (nat i))"

definition String_val :: "(int \<Rightarrow> string) \<Rightarrow> sqlval \<Rightarrow> string" where
  "String_val dt v =
     (case v of
        SNull \<Rightarrow> ''null''
      | SInt i \<Rightarrow> String_int i
      | SText s \<Rightarrow> s
      | STime t \<Rightarrow> dt t)"

text \<open>\<^verbatim>\<open>${r.id}\<close> in the template literal.\<close>

definition interpolate :: "(int \<Rightarrow> string) \<Rightarrow> sqlval option \<Rightarrow> string" where
  "interpolate dt v = (case v of None \<Rightarrow> ''undefined'' | Some x \<Rightarrow> String_val dt x)"

text \<open>\<^verbatim>\<open>s.replace(/"/g, '""')\<close>\<close>

definition double_quotes :: "string \<Rightarrow> string" where
  "double_quotes s = concat (map (\<lambda>c. if c = dq then [dq, dq] else [c]) s)"

text \<open>The template \<^verbatim>\<open>`"${...}"`\<close> around the replaced text.\<close>

definition quoted :: "string \<Rightarrow> string" where
  "quoted s = dq # double_quotes s @ [dq]"

text \<open>\<^verbatim>\<open>esc = v => (v === null || v === undefined) ? '' : `"${String(v).replace(/"/g, '""')}"`\<close>\<close>

definition esc :: "(int \<Rightarrow> string) \<Rightarrow> sqlval option \<Rightarrow> string" where
  "esc dt v =
     (case v of
        None \<Rightarrow> []
      | Some SNull \<Rightarrow> []
      | Some x \<Rightarrow> quoted (String_val dt x))"

definition csv_header :: string where
  "csv_header =
     ''id,firstname,lastname,email,user_created_at,api_key,apikey_created_at,last_seen'' @ [nl]"

definition csv_line :: "(int \<Rightarrow> string) \<Rightarrow> row \<Rightarrow> string" where
  "csv_line dt r =
     interpolate dt (field r ''id'') @ '','' @ esc dt (field r ''firstname'') @ '','' @
     esc dt (field r ''lastname'') @ '','' @ esc dt (field r ''email'') @ '','' @
     esc dt (field r ''user_created_at'') @ '','' @ esc dt (field r ''api_key'') @ '','' @
     esc dt (field r ''apikey_created_at'') @ '','' @ esc dt (field r ''last_seen'') @ [nl]"

definition exported_columns :: "user_row \<times> key_row option \<Rightarrow> row" where
  "exported_columns j =
     [(''id'', SInt (u_id (fst j))),
      (''firstname'', SText (firstname (fst j))),
      (''lastname'', SText (lastname (fst j))),
      (''email'', SText (email (fst j))),
      (''user_created_at'', STime (u_created_at (fst j))),
      (''api_key'', a_api_key (snd j)),
      (''apikey_created_at'', a_created_at (snd j)),
      (''last_seen'', time_or_null (last_seen (fst j)))]"

definition select_exported :: "fault \<Rightarrow> store \<Rightarrow> db_error + row list" where
  "select_exported flt st =
     (case flt of
        Some m \<Rightarrow> Inl (DbError m)
      | None \<Rightarrow> Inr (map exported_columns (order_by_id (left_join (users st) (apikeys st)))))"

definition exportCsv :: "fault \<Rightarrow> (int \<Rightarrow> string) \<Rightarrow> store \<Rightarrow> store \<times> response" where
  "exportCsv flt dt st =
     (case select_exported flt st of
        Inl err \<Rightarrow> (st, Json 500 [(''error'', JStr (message err))])
      | Inr rows \<Rightarrow> (st, Csv (csv_header @ concat (map (csv_line dt) rows))))"

subsection \<open>Deleting a user\<close>

text \<open>
  \<^verbatim>\<open>BEGIN\<close>, \<^verbatim>\<open>ROLLBACK\<close> and the \<^verbatim>\<open>foreign_keys\<close> pragma follow the state of the
  connection: \<^verbatim>\<open>BEGIN\<close> fails inside an open transaction, \<^verbatim>\<open>ROLLBACK\<close> fails without
  one, and the pragma does nothing inside one. The handler issues them without a callback,
  so a failure leaves the store as it was and the handler goes on.
\<close>

definition pragma_foreign_keys_on :: "store \<Rightarrow> store" where
  "pragma_foreign_keys_on st = (if txn st = None then st\<lparr>foreign_keys := True\<rparr> else st)"

definition begin_transaction :: "store \<Rightarrow> store" where
  "begin_transaction st =
     (case txn st of
        None \<Rightarrow> st\<lparr>txn := Some (users st, apikeys st, user_seq st)\<rparr>
      | Some _ \<Rightarrow> st)"

definition rollback :: "store \<Rightarrow> store" where
  "rollback st =
     (case txn st of
        None \<Rightarrow> st
      | Some (us, ks, sq) \<Rightarrow> st\<lparr>users := us, apikeys := ks, user_seq := sq, txn := None\<rparr>)"

text \<open>
  \<^verbatim>\<open>COMMIT\<close> is the statement that takes the lock on the database file and writes, so the
  store can fail it from outside (\<^verbatim>\<open>SQLITE_BUSY\<close> while another connection reads). A failed
  \<^verbatim>\<open>COMMIT\<close> leaves the transaction open, with its changes not committed.
\<close>

definition commit :: "fault \<Rightarrow> store \<Rightarrow> db_error + store" where
  "commit flt st =
     (case flt of
        Some m \<Rightarrow> Inl (DbError m)
      | None \<Rightarrow> Inr (st\<lparr>txn := None\<rparr>))"

text \<open>
  \<^verbatim>\<open>POST /admin/api/user/:id/delete\<close>, after the guard. \<^verbatim>\<open>COMMIT\<close> is issued without a
  callback and the answer \<^verbatim>\<open>success\<close> is sent in the same turn, whatever becomes of it.
\<close>

definition deleteUser :: "fault \<Rightarrow> fault \<Rightarrow> fault \<Rightarrow> jsnum \<Rightarrow> store \<Rightarrow> store \<times> response" where
  "deleteUser f_keys f_user f_commit n st =
     (if \<not> truthy_num n then (st, Json 400 [(''error'', JStr ''invalid id'')])
      else
        let st1 = pragma_foreign_keys_on st;
            st2 = begin_transaction st1
        in (case delete_key f_keys (bind_num n) st2 of
              Inl err \<Rightarrow>
                (rollback st2, Json 500 [(''error'', JStr ''delete_keys_failed''),
                                         (''details'', JStr (message err))])
            | Inr st3 \<Rightarrow>
                (case delete_user f_user (bind_num n) st3 of
                   Inl err2 \<Rightarrow>
                     (rollback st3, Json 500 [(''error'', JStr ''delete_user_failed''),
                                              (''details'', JStr (message err2))])
                 | Inr st4 \<Rightarrow> (fire_and_forget (commit f_commit st4) st4, success))))"

subsection \<open>The administrator's routes\<close>

definition route_users :: "session option \<Rightarrow> fault \<Rightarrow> int \<Rightarrow> store \<Rightarrow> store \<times> response" where
  "route_users sess flt now = requireAdmin sess (listUsers flt now)"

definition route_revoke :: "session option \<Rightarrow> fault \<Rightarrow> jsnum \<Rightarrow> store \<Rightarrow> store \<times> response" where
  "route_revoke sess flt n = requireAdmin sess (revokeKey flt n)"

definition route_export ::
  "session option \<Rightarrow> fault \<Rightarrow> (int \<Rightarrow> string) \<Rightarrow> store \<Rightarrow> store \<times> response" where
  "route_export sess flt dt = requireAdmin sess (exportCsv flt dt)"

definition route_delete ::
  "session option \<Rightarrow> fault \<Rightarrow> fault \<Rightarrow> fault \<Rightarrow> jsnum \<Rightarrow> store \<Rightarrow> store \<times> response" where
  "route_delete sess f_keys f_user f_commit n =
     requireAdmin sess (deleteUser f_keys f_user f_commit n)"

subsection \<open>Reading a quoted field\<close>

text \<open>
  What a reader of CSV makes of a quoted field: the text between the enclosing double
  quotes, with each pair of double quotes standing for one; \<open>None\<close> when the field is not
  of that form. It is the measure for the escaping done by \<^const>\<open>esc\<close>.
\<close>

fun unquote_rest :: "string \<Rightarrow> string option" where
  "unquote_rest [] = None"
| "unquote_rest [c] = (if c = dq then Some [] else None)"
| "unquote_rest (c # d # cs) =
     (if c = dq
      then (if d = dq then map_option ((#) dq) (unquote_rest cs) else None)
      else map_option ((#) c) (unquote_rest (d # cs)))"

definition unquote :: "string \<Rightarrow> string option" where
  "unquote s = (case s of [] \<Rightarrow> None | c # cs \<Rightarrow> if c = dq then unquote_rest cs else None)"

subsection \<open>A store with two users, one of them without a key\<close>

definition ann :: user_row where
  "ann = \<lparr>u_id = 1, firstname = ''Ann'', lastname = ''Lee'', email = ''ann@example.org'',
          is_online = 0, last_seen = None, u_created_at = 100\<rparr>"

definition bob :: user_row where
  "bob = \<lparr>u_id = 2, firstname = ''Bob'', lastname = [CHR ''O'', dq] @ ''Brien'',
          email = ''bob@example.org'', is_online = 1, last_seen = Some 150, u_created_at = 120\<rparr>"

definition ann_key :: key_row where
  "ann_key = \<lparr>k_id = 1, api_key = ''UWUNTU-API-0123456789ABCDEF'', k_created_at = 100\<rparr>"

definition example_store :: store where
  "example_store =
     \<lparr>users = [ann, bob], apikeys = [ann_key], user_seq = 2, foreign_keys = False, txn = None\<rparr>"

definition no_faults :: save_faults where
  "no_faults = \<lparr>on_insert_user = None, on_insert_key = None, on_undo_user = None, on_fetch = None\<rparr>"

text \<open>A new user who sends the key that Ann already holds, and one who sends Ann's address.\<close>

definition carl_body :: save_body where
  "carl_body = \<lparr>b_firstname = Some ''Carl'', b_lastname = Some ''Orr'',
                b_email = Some ''carl@example.org'',
                b_apiKey = Some ''UWUNTU-API-0123456789ABCDEF''\<rparr>"

definition carl :: user_row where
  "carl = \<lparr>u_id = 3, firstname = ''Carl'', lastname = ''Orr'', email = ''carl@example.org'',
           is_online = 0, last_seen = None, u_created_at = 300\<rparr>"

definition eve_body :: save_body where
  "eve_body = \<lparr>b_firstname = Some ''Eve'', b_lastname = Some ''Roe'',
               b_email = Some ''ann@example.org'',
               b_apiKey = Some ''UWUNTU-API-FFFFFFFFFFFFFFFF''\<rparr>"

text \<open>An entropy source, and a user who sends the key generated from it.\<close>

definition some_bytes :: "nat \<Rightarrow> byte" where
  "some_bytes n = of_nat n * 17"

definition dora_body :: save_body where
  "dora_body = \<lparr>b_firstname = Some ''Dora'', b_lastname = Some ''Kim'',
                b_email = Some ''dora@example.org'', b_apiKey = Some (makeApiKey some_bytes)\<rparr>"

text \<open>A rendering of timestamps for the examples: the seconds in decimal after an \<^verbatim>\<open>@\<close>.\<close>

definition stamp :: "int \<Rightarrow> string" where
  "stamp t = CHR ''@'' # String_int t"

section \<open>Properties\<close>

subsection \<open>The format of a key\<close>

lemma re_test_iff:
  "re_test s \<longleftrightarrow>
     (\<exists>h. s = ''UWUNTU-API-'' @ h \<and> length h = 16 \<and> set h \<subseteq> set ''ABCDEF0123456789'')"
proof
  assume a: "re_test s"
  then have "s = ''UWUNTU-API-'' @ drop 11 s"
    unfolding re_test_def by (metis append_take_drop_id)
  moreover from a have "length (drop 11 s) = 16" "set (drop 11 s) \<subseteq> set ''ABCDEF0123456789''"
    unfolding re_test_def key_char_def list_all_iff by blast+
  ultimately show
    "\<exists>h. s = ''UWUNTU-API-'' @ h \<and> length h = 16 \<and> set h \<subseteq> set ''ABCDEF0123456789''"
    by blast
next
  assume "\<exists>h. s = ''UWUNTU-API-'' @ h \<and> length h = 16 \<and> set h \<subseteq> set ''ABCDEF0123456789''"
  then obtain h where h: "s = ''UWUNTU-API-'' @ h" "length h = 16"
    "set h \<subseteq> set ''ABCDEF0123456789''" by blast
  have t: "take 11 s = ''UWUNTU-API-''" and d: "drop 11 s = h" using h(1) by simp_all
  show "re_test s"
    unfolding re_test_def key_char_def list_all_iff d t using h(2,3) by blast
qed

lemma upper_hex_str: "map upper_char ''0123456789abcdef'' = ''0123456789ABCDEF''"
  by (simp add: upper_char_def)

lemma upper_hex_char: "c \<in> set ''0123456789abcdef'' \<Longrightarrow> key_char (upper_char c)"
proof -
  assume "c \<in> set ''0123456789abcdef''"
  then have "upper_char c \<in> set (map upper_char ''0123456789abcdef'')"
    by (simp only: set_map image_eqI)
  then show ?thesis
    unfolding upper_hex_str key_char_def by auto
qed

lemma upper_hex_digit: "n < 16 \<Longrightarrow> key_char (upper_char (hex_digit n))"
  unfolding hex_digit_def by (rule upper_hex_char, rule nth_mem) simp

lemma byte_nibbles: "unat (b :: byte) div 16 < 16" "unat b mod 16 < 16"
proof -
  have "unat b < 256" using unsigned_less [of b, where ?'a = nat] by simp
  then show "unat b div 16 < 16" by simp
  show "unat b mod 16 < 16" by simp
qed

lemma hex_upper_chars:
  "list_all key_char (toUpperCase (toString_hex bs)) \<and>
   length (toUpperCase (toString_hex bs)) = 2 * length bs"
  by (induction bs)
     (simp_all add: toUpperCase_def toString_hex_def byte_hex_def upper_hex_digit byte_nibbles)

lemma makeApiKey_format: "re_test (makeApiKey src)"
  using hex_upper_chars [of "randomBytes src 8"]
  by (simp add: re_test_def makeApiKey_def randomBytes_def)

subsection \<open>Rejection of malformed keys\<close>

text \<open>
  C9, as the handler has it. A key that is absent, and also the empty string, is answered
  400 with reason \<^verbatim>\<open>missing_key\<close>; every other string that does not match
  \<^verbatim>\<open>UWUNTU-API-[A-F0-9]{16}\<close> is answered 400 with reason \<^verbatim>\<open>invalid_format\<close>. In both
  cases the store is returned as it was, whatever the faults.
\<close>

theorem validateKey_format_rejection:
  "(key = None \<or> key = Some [] \<longrightarrow>
      validateKey f_get f_upd key now st =
        (st, Json 400 [(''valid'', JBool False), (''reason'', JStr ''missing_key'')])) \<and>
   (\<forall>s. key = Some s \<and> s \<noteq> [] \<and> \<not> re_test s \<longrightarrow>
      validateKey f_get f_upd key now st =
        (st, Json 400 [(''valid'', JBool False), (''reason'', JStr ''invalid_format'')]))"
  by (auto simp: validateKey_def truthy_def)

text \<open>Lowercase hexadecimal digits, fifteen digits instead of sixteen, and no key at all.\<close>

theorem validateKey_format_rejection_witness:
  "validateKey None None (Some ''UWUNTU-API-abcdef0123456789'') 7 empty_store =
     (empty_store, Json 400 [(''valid'', JBool False), (''reason'', JStr ''invalid_format'')]) \<and>
   validateKey None None (Some ''UWUNTU-API-ABCDEF012345678'') 7 empty_store =
     (empty_store, Json 400 [(''valid'', JBool False), (''reason'', JStr ''invalid_format'')]) \<and>
   validateKey None None None 7 empty_store =
     (empty_store, Json 400 [(''valid'', JBool False), (''reason'', JStr ''missing_key'')])"
proof -
  have a: "\<not> re_test ''UWUNTU-API-abcdef0123456789''"
    by (simp add: re_test_def key_char_def)
  have b: "\<not> re_test ''UWUNTU-API-ABCDEF012345678''"
    by (simp add: re_test_def)
  show ?thesis
    using validateKey_format_rejection
            [of "Some ''UWUNTU-API-abcdef0123456789''" None None 7 empty_store]
      validateKey_format_rejection
            [of "Some ''UWUNTU-API-ABCDEF012345678''" None None 7 empty_store]
      validateKey_format_rejection [of None None None 7 empty_store] a b
    by simp
qed

text \<open>
  The empty string does not match the pattern, and the request \<^verbatim>\<open>?key=\<close> is answered
  with reason \<^verbatim>\<open>missing_key\<close>, not \<^verbatim>\<open>invalid_format\<close>: the test \<^verbatim>\<open>!key\<close> comes first.
\<close>

theorem validateKey_empty_string_counterexample:
  "\<not> re_test [] \<and>
   body (snd (validateKey None None (Some []) 0 empty_store)) ''reason''
     = Some (JStr ''missing_key'') \<and>
   body (snd (validateKey None None (Some []) 0 empty_store)) ''reason''
     \<noteq> Some (JStr ''invalid_format'')"
  by (simp add: validateKey_def truthy_def re_test_def body_def)

subsection \<open>The status of a valid key\<close>

lemma no_status_column: "field (key_columns a) ''status'' = None"
  by (simp add: field_def key_columns_def)

text \<open>
  C10. A row of \<^verbatim>\<open>apikeys\<close> has the columns \<^verbatim>\<open>id\<close>, \<^verbatim>\<open>api_key\<close> and
  \<^verbatim>\<open>created_at\<close> only, so \<^verbatim>\<open>row.status\<close> is undefined and every answer with
  \<^verbatim>\<open>valid: true\<close> carries the status \<^verbatim>\<open>active\<close>.
\<close>

theorem validateKey_status_active:
  "validateKey f_get f_upd key now st = (st', r) \<Longrightarrow> body r ''valid'' = Some (JBool True) \<Longrightarrow>
   body r ''status'' = Some (JStr ''active'')"
  by (auto simp: validateKey_def body_def select_key_def no_status_column or_default_def
                 truthy_val_def
           split: if_splits option.splits sum.splits)

lemmas store_defs = example_store_def ann_def bob_def ann_key_def empty_store_def

lemma example_validate:
  "validateKey None None (Some ''UWUNTU-API-0123456789ABCDEF'') 200 example_store =
    (example_store\<lparr>users := [ann\<lparr>is_online := 1, last_seen := Some 200\<rparr>, bob]\<rparr>,
     Json 200 [(''valid'', JBool True),
               (''key'', JVal (Some (SText ''UWUNTU-API-0123456789ABCDEF''))),
               (''status'', JStr ''active''),
               (''createdAt'', JVal (Some (STime 100))),
               (''message'', JStr ''API key valid dan last_seen diupdate.'')])"
  by (simp add: validateKey_def truthy_def re_test_def key_char_def select_key_def store_defs
        key_columns_def field_def bind_def update_seen_def fire_and_forget_def id_is_def
        or_default_def truthy_val_def)

theorem validateKey_status_active_witness:
  "body (snd (validateKey None None (Some ''UWUNTU-API-0123456789ABCDEF'') 200 example_store))
      ''valid'' = Some (JBool True) \<and>
   body (snd (validateKey None None (Some ''UWUNTU-API-0123456789ABCDEF'') 200 example_store))
      ''status'' = Some (JStr ''active'')"
proof -
  have v: "body (snd (validateKey None None (Some ''UWUNTU-API-0123456789ABCDEF'') 200
                  example_store)) ''valid'' = Some (JBool True)"
    by (simp add: example_validate body_def)
  from validateKey_status_active [OF surjective_pairing v] v show ?thesis by simp
qed

subsection \<open>Saving a user\<close>

lemma fold_max_ge: "(a::int) \<le> fold max xs a \<and> (\<forall>x\<in>set xs. x \<le> fold max xs a)"
proof (induction xs arbitrary: a)
  case Nil
  show ?case by simp
next
  case (Cons y ys)
  from Cons [of "max y a"] show ?case by auto
qed

lemma next_user_id_fresh: "u \<in> set (users st) \<Longrightarrow> u_id u < next_user_id st"
  using fold_max_ge [of "user_seq st" "map u_id (users st)"]
  by (auto simp: next_user_id_def)

lemma next_user_id_new: "next_user_id st \<notin> set (map u_id (users st))"
proof
  assume "next_user_id st \<in> set (map u_id (users st))"
  then obtain u where "u \<in> set (users st)" "u_id u = next_user_id st" by auto
  with next_user_id_fresh [of u st] show False by simp
qed

lemma insert_user_Inr:
  "insert_user flt fn ln em now st = Inr (uid, st1) \<Longrightarrow>
   uid = next_user_id st \<and> apikeys st1 = apikeys st \<and> foreign_keys st1 = foreign_keys st \<and>
   users st1 = users st @ [\<lparr>u_id = uid, firstname = fn, lastname = ln, email = em,
                           is_online = 0, last_seen = None, u_created_at = now\<rparr>]"
  by (auto simp: insert_user_def Let_def split: option.splits if_splits)

lemma undo_restores_users:
  assumes "insert_user flt fn ln em now st = Inr (uid, st1)"
  shows "users (fire_and_forget (delete_user None (SInt uid) st1) st1) = users st"
proof -
  from insert_user_Inr [OF assms] have uid: "uid = next_user_id st"
    and us: "users st1 = users st @ [\<lparr>u_id = uid, firstname = fn, lastname = ln, email = em,
                           is_online = 0, last_seen = None, u_created_at = now\<rparr>]" by simp_all
  have "\<forall>u\<in>set (users st). u_id u \<noteq> uid"
    using next_user_id_fresh [of _ st] uid by fastforce
  then have "filter (\<lambda>u. uid \<noteq> u_id u) (users st) = users st"
    by (intro filter_True) auto
  then show ?thesis
    by (simp add: fire_and_forget_def delete_user_def id_is_def us)
qed

text \<open>
  C3. When the store holds a user with the address \<open>e\<close>, a save with that address and all
  four fields present returns the store as it was, so that no key row is created and the
  number of users is the same; and when the insert is not failed from outside, by which the
  answer would be another error, the answer is 409 \<^verbatim>\<open>Email already exists\<close>.
\<close>

theorem saveUser_duplicate_email:
  assumes "truthy (b_firstname b)" and "truthy (b_lastname b)" and "truthy (b_apiKey b)"
    and "b_email b = Some e" and "e \<noteq> []"
    and "e \<in> set (map email (users st))"
  shows "fst (saveUser flts b now st) = st \<and>
         (on_insert_user flts = None \<longrightarrow>
            snd (saveUser flts b now st) = Json 409 [(''error'', JStr ''Email already exists'')])"
proof (cases "on_insert_user flts")
  case None
  have "str_includes unique_email_failed ''UNIQUE''"
    by (simp add: unique_email_failed_def)
  then have "mentions_unique (DbError unique_email_failed)"
    by (simp add: mentions_unique_def unique_email_failed_def)
  moreover have "insert_user None (the (b_firstname b)) (the (b_lastname b)) e now st
      = Inl (DbError unique_email_failed)"
    using assms(6) by (simp add: insert_user_def)
  ultimately show ?thesis
    using assms None by (simp add: saveUser_def truthy_def)
next
  case (Some m)
  then have "insert_user (on_insert_user flts) (the (b_firstname b)) (the (b_lastname b)) e now st
      = Inl (DbError m)"
    by (simp add: insert_user_def)
  with assms Some show ?thesis by (simp add: saveUser_def truthy_def)
qed

lemmas save_defs = saveUser_def truthy_def insert_user_def insert_key_def delete_user_def
  fire_and_forget_def id_is_def next_user_id_def mentions_unique_def unique_email_failed_def
  no_faults_def carl_body_def eve_body_def select_saved_def left_join_def saved_columns_def
  a_api_key_def a_created_at_def

theorem saveUser_duplicate_email_witness:
  "''ann@example.org'' \<in> set (map email (users example_store)) \<and>
   fst (saveUser no_faults eve_body 300 example_store) = example_store \<and>
   snd (saveUser no_faults eve_body 300 example_store) =
     Json 409 [(''error'', JStr ''Email already exists'')]"
proof -
  have e: "''ann@example.org'' \<in> set (map email (users example_store))"
    by (simp add: store_defs)
  have t: "truthy (b_firstname eve_body)" "truthy (b_lastname eve_body)"
    "truthy (b_apiKey eve_body)" "b_email eve_body = Some ''ann@example.org''"
    "''ann@example.org'' \<noteq> []"
    by (simp_all add: eve_body_def truthy_def)
  have n: "on_insert_user no_faults = None" by (simp add: no_faults_def)
  from saveUser_duplicate_email [OF t e, of no_faults 300] n e
  show ?thesis by simp
qed

subsection \<open>A failed insert of the key\<close>

text \<open>
  When the insert of the user succeeds and the insert of the key fails, for whatever
  reason, the answer is 500 \<^verbatim>\<open>DB insert apikey failed\<close>, whatever becomes of the
  \<^verbatim>\<open>DELETE\<close> that the handler issues for the new user row.
\<close>

lemma saveUser_failed_key_insert_answer:
  assumes "fn \<noteq> []" and "ln \<noteq> []" and "em \<noteq> []" and "k \<noteq> []"
    and "insert_user (on_insert_user flts) fn ln em now st = Inr (uid, st1)"
    and "insert_key (on_insert_key flts) uid k now st1 = Inl err"
  shows "snd (saveUser flts \<lparr>b_firstname = Some fn, b_lastname = Some ln, b_email = Some em,
                             b_apiKey = Some k\<rparr> now st)
           = Json 500 [(''error'', JStr ''DB insert apikey failed''),
                       (''details'', JStr (message err))]"
  using assms by (simp add: saveUser_def truthy_def)

text \<open>
  When the store carries that \<^verbatim>\<open>DELETE\<close> out, the \<^verbatim>\<open>users\<close> table is what it was
  before the call, and no row has the new id.
\<close>

lemma saveUser_failed_key_insert_undone:
  assumes "fn \<noteq> []" and "ln \<noteq> []" and "em \<noteq> []" and "k \<noteq> []"
    and "insert_user (on_insert_user flts) fn ln em now st = Inr (uid, st1)"
    and "insert_key (on_insert_key flts) uid k now st1 = Inl err"
    and "on_undo_user flts = None"
  shows "\<exists>st'. saveUser flts \<lparr>b_firstname = Some fn, b_lastname = Some ln, b_email = Some em,
                              b_apiKey = Some k\<rparr> now st
            = (st', Json 500 [(''error'', JStr ''DB insert apikey failed''),
                              (''details'', JStr (message err))]) \<and>
          users st' = users st \<and> uid \<notin> set (map u_id (users st'))"
proof -
  have "uid \<notin> set (map u_id (users st))"
    using insert_user_Inr [OF assms(5)] next_user_id_new [of st] by simp
  then show ?thesis
    using assms undo_restores_users [OF assms(5)]
    by (simp add: saveUser_def truthy_def)
qed

lemma carl_inserted:
  "insert_user None ''Carl'' ''Orr'' ''carl@example.org'' 300 example_store =
     Inr (3, example_store\<lparr>users := [ann, bob, carl], user_seq := 3\<rparr>)"
  by (simp add: insert_user_def next_user_id_def store_defs carl_def)

lemma carl_key_refused:
  "insert_key None 3 ''UWUNTU-API-0123456789ABCDEF'' 300
     (example_store\<lparr>users := us, user_seq := 3\<rparr>) =
     Inl (DbError ''SQLITE_CONSTRAINT: UNIQUE constraint failed: apikeys.api_key'')"
  by (simp add: insert_key_def store_defs)

lemma carl_undone:
  "users (fst (saveUser no_faults carl_body 300 example_store)) = [ann, bob] \<and>
   snd (saveUser no_faults carl_body 300 example_store) =
     Json 500 [(''error'', JStr ''DB insert apikey failed''),
               (''details'', JStr ''SQLITE_CONSTRAINT: UNIQUE constraint failed: apikeys.api_key'')]"
proof -
  have i: "insert_user (on_insert_user no_faults) ''Carl'' ''Orr'' ''carl@example.org'' 300
             example_store
           = Inr (3, example_store\<lparr>users := [ann, bob, carl], user_seq := 3\<rparr>)"
    by (simp add: no_faults_def carl_inserted)
  have k: "insert_key (on_insert_key no_faults) 3 ''UWUNTU-API-0123456789ABCDEF'' 300
             (example_store\<lparr>users := [ann, bob, carl], user_seq := 3\<rparr>)
           = Inl (DbError ''SQLITE_CONSTRAINT: UNIQUE constraint failed: apikeys.api_key'')"
    by (simp add: no_faults_def carl_key_refused)
  have u: "on_undo_user no_faults = None" by (simp add: no_faults_def)
  from saveUser_failed_key_insert_undone [OF _ _ _ _ i k u]
  show ?thesis by (auto simp: carl_body_def example_store_def)
qed

text \<open>
  C1. The handler means to undo the insert of the user (its comment says
  \<^verbatim>\<open>rollback user\<close>), but it issues the \<^verbatim>\<open>DELETE\<close> without a callback and outside any
  transaction, and answers at once. When the insert of the user succeeds, the insert of the
  key fails and the store fails that \<^verbatim>\<open>DELETE\<close> as well, the answer is the 500 of the
  failed key insert and the store is the one after the insert of the user: the row with the
  new id, which no row had before, stays in the \<^verbatim>\<open>users\<close> table.
\<close>

theorem saveUser_failed_undo_leaves_orphan:
  assumes "fn \<noteq> []" and "ln \<noteq> []" and "em \<noteq> []" and "k \<noteq> []"
    and "insert_user (on_insert_user flts) fn ln em now st = Inr (uid, st1)"
    and "insert_key (on_insert_key flts) uid k now st1 = Inl err"
    and "on_undo_user flts = Some m"
  shows "saveUser flts \<lparr>b_firstname = Some fn, b_lastname = Some ln, b_email = Some em,
                        b_apiKey = Some k\<rparr> now st
           = (st1, Json 500 [(''error'', JStr ''DB insert apikey failed''),
                             (''details'', JStr (message err))]) \<and>
         users st1 = users st @ [\<lparr>u_id = uid, firstname = fn, lastname = ln, email = em,
                                  is_online = 0, last_seen = None, u_created_at = now\<rparr>] \<and>
         uid \<notin> set (map u_id (users st))"
proof -
  have "uid \<notin> set (map u_id (users st))"
    using insert_user_Inr [OF assms(5)] next_user_id_new [of st] by simp
  moreover have "saveUser flts \<lparr>b_firstname = Some fn, b_lastname = Some ln, b_email = Some em,
                        b_apiKey = Some k\<rparr> now st
           = (st1, Json 500 [(''error'', JStr ''DB insert apikey failed''),
                             (''details'', JStr (message err))])"
    using assms by (simp add: saveUser_def truthy_def delete_user_def fire_and_forget_def)
  ultimately show ?thesis using insert_user_Inr [OF assms(5)] by simp
qed

text \<open>
  Carl sends the key that Ann holds, and the database is locked when the \<^verbatim>\<open>DELETE\<close> of
  his row runs: the answer is 500 and Carl's row, with id 3 and no key row, is in the table.
\<close>

theorem saveUser_failed_undo_leaves_orphan_witness:
  "saveUser (no_faults\<lparr>on_undo_user := Some ''SQLITE_BUSY: database is locked''\<rparr>)
      carl_body 300 example_store =
     (example_store\<lparr>users := [ann, bob, carl], user_seq := 3\<rparr>,
      Json 500 [(''error'', JStr ''DB insert apikey failed''),
                (''details'',
                 JStr ''SQLITE_CONSTRAINT: UNIQUE constraint failed: apikeys.api_key'')]) \<and>
   users (example_store\<lparr>users := [ann, bob, carl], user_seq := 3\<rparr>) = [ann, bob, carl] \<and>
   u_id carl = 3 \<and>
   map k_id (apikeys (example_store\<lparr>users := [ann, bob, carl], user_seq := 3\<rparr>)) = [1]"
proof -
  let ?f = "no_faults\<lparr>on_undo_user := Some ''SQLITE_BUSY: database is locked''\<rparr>"
  have i: "insert_user (on_insert_user ?f) ''Carl'' ''Orr'' ''carl@example.org'' 300
             example_store
           = Inr (3, example_store\<lparr>users := [ann, bob, carl], user_seq := 3\<rparr>)"
    by (simp add: no_faults_def carl_inserted)
  have k: "insert_key (on_insert_key ?f) 3 ''UWUNTU-API-0123456789ABCDEF'' 300
             (example_store\<lparr>users := [ann, bob, carl], user_seq := 3\<rparr>)
           = Inl (DbError ''SQLITE_CONSTRAINT: UNIQUE constraint failed: apikeys.api_key'')"
    by (simp add: no_faults_def carl_key_refused)
  have u: "on_undo_user ?f = Some ''SQLITE_BUSY: database is locked''" by simp
  from saveUser_failed_undo_leaves_orphan [OF _ _ _ _ i k u]
  have "saveUser ?f carl_body 300 example_store =
     (example_store\<lparr>users := [ann, bob, carl], user_seq := 3\<rparr>,
      Json 500 [(''error'', JStr ''DB insert apikey failed''),
                (''details'',
                 JStr ''SQLITE_CONSTRAINT: UNIQUE constraint failed: apikeys.api_key'')])"
    by (simp add: carl_body_def)
  then show ?thesis by (simp add: store_defs carl_def)
qed


subsection \<open>A generated key validates\<close>

lemma saveUser_success:
  assumes "saveUser flts b t0 st = (st1, r)" and "status r = 200"
  shows "\<exists>fn ln em k. b_firstname b = Some fn \<and> b_lastname b = Some ln \<and> b_email b = Some em \<and>
           b_apiKey b = Some k \<and>
           k \<notin> set (map api_key (apikeys st)) \<and>
           users st1 = users st @ [\<lparr>u_id = next_user_id st, firstname = fn, lastname = ln,
                        email = em, is_online = 0, last_seen = None, u_created_at = t0\<rparr>] \<and>
           apikeys st1 = apikeys st @ [\<lparr>k_id = next_user_id st, api_key = k, k_created_at = t0\<rparr>]"
proof -
  from assms have t: "truthy (b_firstname b)" "truthy (b_lastname b)" "truthy (b_email b)" "truthy (b_apiKey b)"
    by (auto simp: saveUser_def status_def split: if_splits)
  then obtain fn ln em k where b: "b_firstname b = Some fn" "b_lastname b = Some ln" "b_email b = Some em"
       "b_apiKey b = Some k"
    by (auto simp: truthy_def split: option.splits)
  from assms t b obtain uid sta where i: "insert_user (on_insert_user flts) fn ln em t0 st = Inr (uid, sta)"
    by (auto simp: saveUser_def status_def split: if_splits sum.splits)
  from assms t b i have k: "insert_key (on_insert_key flts) uid k t0 sta = Inr st1"
    by (auto simp: saveUser_def status_def split: if_splits sum.splits option.splits)
  from k have "k \<notin> set (map api_key (apikeys sta))"
     and "apikeys st1 = apikeys sta @ [\<lparr>k_id = uid, api_key = k, k_created_at = t0\<rparr>]"
     and "users st1 = users sta"
    by (auto simp: insert_key_def split: option.splits if_splits)
  with insert_user_Inr [OF i] b show ?thesis by simp
qed

lemma find_appended: "\<forall>x\<in>set xs. \<not> P x \<Longrightarrow> P y \<Longrightarrow> find P (xs @ [y]) = Some y"
  by (induction xs) auto

lemma validate_found:
  assumes "re_test k" and "find (\<lambda>a. api_key a = k) (apikeys st) = Some a"
  shows "\<exists>r. validateKey None f_upd (Some k) now st =
           (if f_upd = None
            then st\<lparr>users := map (\<lambda>u. if k_id a = u_id u
                                       then u\<lparr>is_online := 1, last_seen := Some now\<rparr>
                                       else u) (users st)\<rparr>
            else st, r) \<and>
         body r ''valid'' = Some (JBool True) \<and> status r = 200"
proof -
  from assms(1) have "k \<noteq> []" by (auto simp: re_test_def)
  then show ?thesis using assms
    by (cases f_upd)
       (simp_all add: validateKey_def truthy_def select_key_def key_columns_def field_def bind_def
          update_seen_def id_is_def fire_and_forget_def body_def status_def)
qed

lemma seen_after_update:
  assumes "u0 \<in> set us" and "u_id u0 = i"
  shows "(\<exists>u\<in>set (map (\<lambda>u. if i = u_id u then u\<lparr>is_online := 1, last_seen := Some t\<rparr> else u) us).
            u_id u = i) \<and>
         (\<forall>u\<in>set (map (\<lambda>u. if i = u_id u then u\<lparr>is_online := 1, last_seen := Some t\<rparr> else u) us).
            u_id u = i \<longrightarrow> last_seen u = Some t \<and> is_online u = 1)"
proof
  let ?f = "\<lambda>u. if i = u_id u then u\<lparr>is_online := 1, last_seen := Some t\<rparr> else u"
  have "?f u0 \<in> set (map ?f us)" using assms(1) by (simp only: set_map image_eqI)
  moreover have "u_id (?f u0) = i" using assms(2) by simp
  ultimately show "\<exists>u\<in>set (map ?f us). u_id u = i" by blast
  show "\<forall>u\<in>set (map ?f us). u_id u = i \<longrightarrow> last_seen u = Some t \<and> is_online u = 1"
    by auto
qed

lemma validate_found_users:
  assumes "re_test k" and "find (\<lambda>a. api_key a = k) (apikeys st) = Some a"
    and "validateKey None f_upd (Some k) now st = (st', r)"
  shows "body r ''valid'' = Some (JBool True)"
    and "apikeys st' = apikeys st"
    and "f_upd = None \<Longrightarrow>
         users st' = map (\<lambda>u. if k_id a = u_id u then u\<lparr>is_online := 1, last_seen := Some now\<rparr>
                                  else u) (users st)"
    and "f_upd \<noteq> None \<Longrightarrow> users st' = users st"
proof -
  from validate_found [OF assms(1,2), of f_upd now] obtain r0 where
    v: "validateKey None f_upd (Some k) now st =
           (if f_upd = None
            then st\<lparr>users := map (\<lambda>u. if k_id a = u_id u
                                       then u\<lparr>is_online := 1, last_seen := Some now\<rparr>
                                       else u) (users st)\<rparr>
            else st, r0)"
    and b: "body r0 ''valid'' = Some (JBool True)" by blast
  from v assms(3) have r: "r = r0"
    and s: "st' = (if f_upd = None
            then st\<lparr>users := map (\<lambda>u. if k_id a = u_id u
                                       then u\<lparr>is_online := 1, last_seen := Some now\<rparr>
                                       else u) (users st)\<rparr>
            else st)" by simp_all
  show "body r ''valid'' = Some (JBool True)" using b r by simp
  show "apikeys st' = apikeys st" by (simp add: s)
  show "f_upd = None \<Longrightarrow>
         users st' = map (\<lambda>u. if k_id a = u_id u then u\<lparr>is_online := 1, last_seen := Some now\<rparr>
                                  else u) (users st)" by (simp add: s)
  show "f_upd \<noteq> None \<Longrightarrow> users st' = users st" by (auto simp: s)
qed

text \<open>
  C2. A key that the generator produced, from any entropy, and that a successful save
  stored validates: when the lookup is not failed from outside, the answer carries
  \<^verbatim>\<open>valid: true\<close>, on the first validation and on a repeated one, whether or not the
  update of \<^verbatim>\<open>last_seen\<close> is carried out. The user with the id given at the save (the owner
  of the key row) is there after each call, and each call whose update is carried out
  leaves that user's \<^verbatim>\<open>last_seen\<close> at the time of the call.
\<close>

theorem generated_key_validates:
  assumes "b_apiKey b = Some (makeApiKey src)"
    and "saveUser flts b t0 st = (st1, r)" and "status r = 200"
    and "validateKey None f_upd1 (Some (makeApiKey src)) t1 st1 = (st2, r1)"
    and "validateKey None f_upd2 (Some (makeApiKey src)) t2 st2 = (st3, r2)"
  shows "body r1 ''valid'' = Some (JBool True) \<and> body r2 ''valid'' = Some (JBool True) \<and>
         (\<exists>u\<in>set (users st2). u_id u = next_user_id st) \<and>
         (f_upd1 = None \<longrightarrow>
            (\<forall>u\<in>set (users st2). u_id u = next_user_id st \<longrightarrow> last_seen u = Some t1)) \<and>
         (\<exists>u\<in>set (users st3). u_id u = next_user_id st) \<and>
         (f_upd2 = None \<longrightarrow>
            (\<forall>u\<in>set (users st3). u_id u = next_user_id st \<longrightarrow> last_seen u = Some t2))"
proof -
  let ?k = "makeApiKey src"
  let ?uid = "next_user_id st"
  let ?a = "\<lparr>k_id = ?uid, api_key = ?k, k_created_at = t0\<rparr>"
  from saveUser_success [OF assms(2,3)] obtain fn ln em k
    where k: "b_apiKey b = Some k" and new: "k \<notin> set (map api_key (apikeys st))"
      and us: "users st1 = users st @ [\<lparr>u_id = ?uid, firstname = fn, lastname = ln,
                        email = em, is_online = 0, last_seen = None, u_created_at = t0\<rparr>]"
      and ks: "apikeys st1 = apikeys st @ [\<lparr>k_id = ?uid, api_key = k, k_created_at = t0\<rparr>]"
    by blast
  from k assms(1) have kk: "k = ?k" by simp
  have "\<forall>x\<in>set (apikeys st). \<not> api_key x = ?k"
    using new kk by (metis image_eqI set_map)
  then have f1: "find (\<lambda>a. api_key a = ?k) (apikeys st1) = Some ?a"
    unfolding ks kk by (rule find_appended) simp
  note r1 = validate_found_users [OF makeApiKey_format f1 assms(4)]
  have f2: "find (\<lambda>a. api_key a = ?k) (apikeys st2) = Some ?a"
    using f1 r1(2) by simp
  note r2 = validate_found_users [OF makeApiKey_format f2 assms(5)]
  define u0 where "u0 = \<lparr>u_id = ?uid, firstname = fn, lastname = ln,
                        email = em, is_online = 0, last_seen = None, u_created_at = t0\<rparr>"
  have in1: "u0 \<in> set (users st1)" and u0: "u_id u0 = ?uid"
    by (simp_all add: us u0_def)
  note s2 = seen_after_update [OF in1 u0, of t1]
  have e2: "\<exists>u\<in>set (users st2). u_id u = ?uid"
  proof (cases "f_upd1 = None")
    case True
    from r1(3) [OF True] have "users st2 = map (\<lambda>u. if ?uid = u_id u
                 then u\<lparr>is_online := 1, last_seen := Some t1\<rparr> else u) (users st1)"
      by (simp only: key_row.simps)
    then show ?thesis using s2 by metis
  next
    case False
    from r1(4) [OF False] in1 u0 show ?thesis by metis
  qed
  have a2: "f_upd1 = None \<longrightarrow>
              (\<forall>u\<in>set (users st2). u_id u = ?uid \<longrightarrow> last_seen u = Some t1)"
  proof
    assume n: "f_upd1 = None"
    from r1(3) [OF n] have "users st2 = map (\<lambda>u. if ?uid = u_id u
                 then u\<lparr>is_online := 1, last_seen := Some t1\<rparr> else u) (users st1)"
      by (simp only: key_row.simps)
    then show "\<forall>u\<in>set (users st2). u_id u = ?uid \<longrightarrow> last_seen u = Some t1"
      using s2 by metis
  qed
  from e2 obtain u1 where in2: "u1 \<in> set (users st2)" and u1: "u_id u1 = ?uid" by blast
  note s3 = seen_after_update [OF in2 u1, of t2]
  have e3: "\<exists>u\<in>set (users st3). u_id u = ?uid"
  proof (cases "f_upd2 = None")
    case True
    from r2(3) [OF True] have "users st3 = map (\<lambda>u. if ?uid = u_id u
                 then u\<lparr>is_online := 1, last_seen := Some t2\<rparr> else u) (users st2)"
      by (simp only: key_row.simps)
    then show ?thesis using s3 by metis
  next
    case False
    from r2(4) [OF False] in2 u1 show ?thesis by metis
  qed
  have a3: "f_upd2 = None \<longrightarrow>
              (\<forall>u\<in>set (users st3). u_id u = ?uid \<longrightarrow> last_seen u = Some t2)"
  proof
    assume n: "f_upd2 = None"
    from r2(3) [OF n] have "users st3 = map (\<lambda>u. if ?uid = u_id u
                 then u\<lparr>is_online := 1, last_seen := Some t2\<rparr> else u) (users st2)"
      by (simp only: key_row.simps)
    then show "\<forall>u\<in>set (users st3). u_id u = ?uid \<longrightarrow> last_seen u = Some t2"
      using s3 by metis
  qed
  from r1(1) r2(1) e2 a2 e3 a3 show ?thesis by blast
qed

lemma some_key: "makeApiKey some_bytes = ''UWUNTU-API-0011223344556677''"
  by (simp add: makeApiKey_def some_bytes_def randomBytes_def toString_hex_def byte_hex_def
       hex_digit_def toUpperCase_def upper_char_def upt_rec [of _ "numeral _"] upt_rec [of _ "Suc _"])

lemma dora_saved:
  "saveUser no_faults dora_body 100 empty_store =
    (\<lparr>users = [\<lparr>u_id = 1, firstname = ''Dora'', lastname = ''Kim'', email = ''dora@example.org'',
                is_online = 0, last_seen = None, u_created_at = 100\<rparr>],
      apikeys = [\<lparr>k_id = 1, api_key = ''UWUNTU-API-0011223344556677'', k_created_at = 100\<rparr>],
      user_seq = 1, foreign_keys = False, txn = None\<rparr>,
     Json 200 [(''success'', JBool True),
               (''user'', JRow [(''id'', SInt 1), (''firstname'', SText ''Dora''),
                  (''lastname'', SText ''Kim''), (''email'', SText ''dora@example.org''),
                  (''user_created_at'', STime 100),
                  (''api_key'', SText ''UWUNTU-API-0011223344556677''),
                  (''apikey_created_at'', STime 100)])])"
  by (simp add: save_defs dora_body_def some_key empty_store_def)

theorem generated_key_validates_witness:
  "status (snd (saveUser no_faults dora_body 100 empty_store)) = 200 \<and>
   body (snd (validateKey None None (Some (makeApiKey some_bytes)) 500
               (fst (saveUser no_faults dora_body 100 empty_store)))) ''valid'' = Some (JBool True) \<and>
   map last_seen (users (fst (validateKey None None (Some (makeApiKey some_bytes)) 500
               (fst (saveUser no_faults dora_body 100 empty_store))))) = [Some 500] \<and>
   body (snd (validateKey None None (Some (makeApiKey some_bytes)) 900
          (fst (validateKey None None (Some (makeApiKey some_bytes)) 500
               (fst (saveUser no_faults dora_body 100 empty_store)))))) ''valid'' = Some (JBool True) \<and>
   map last_seen (users (fst (validateKey None None (Some (makeApiKey some_bytes)) 900
          (fst (validateKey None None (Some (makeApiKey some_bytes)) 500
               (fst (saveUser no_faults dora_body 100 empty_store))))))) = [Some 900]"
proof -
  let ?k = "makeApiKey some_bytes"
  let ?s1 = "saveUser no_faults dora_body 100 empty_store"
  let ?v1 = "validateKey None None (Some ?k) 500 (fst ?s1)"
  let ?v2 = "validateKey None None (Some ?k) 900 (fst ?v1)"
  have b: "b_apiKey dora_body = Some ?k" by (simp add: dora_body_def)
  have ok: "status (snd ?s1) = 200" by (simp add: dora_saved status_def)
  note g = generated_key_validates [OF b surjective_pairing ok surjective_pairing surjective_pairing,
      of None 500 None 900]
  have n: "next_user_id empty_store = 1" by (simp add: next_user_id_def empty_store_def)
  have l1: "length (users (fst ?v1)) = 1" 
    by (simp add: dora_saved some_key validateKey_def truthy_def re_test_def key_char_def
          select_key_def update_seen_def fire_and_forget_def key_columns_def field_def bind_def)
  have l2: "length (users (fst ?v2)) = 1"
    by (simp add: dora_saved some_key validateKey_def truthy_def re_test_def key_char_def
          select_key_def update_seen_def fire_and_forget_def key_columns_def field_def bind_def)
  from l1 obtain u1 where u1: "users (fst ?v1) = [u1]" by (cases "users (fst ?v1)") auto
  from l2 obtain u2 where u2: "users (fst ?v2) = [u2]" by (cases "users (fst ?v2)") auto
  from g show ?thesis unfolding n u1 u2 using ok by simp
qed


subsection \<open>Revoking a key\<close>

lemma bind_num_is: "id_is (bind_num n) i \<longleftrightarrow> n = JInt i"
  by (cases n) (auto simp: bind_num_def id_is_def)

lemma revokeKey_ok:
  "revokeKey None n st = (st\<lparr>apikeys := filter (\<lambda>a. n \<noteq> JInt (k_id a)) (apikeys st)\<rparr>, success)"
  by (simp add: revokeKey_def delete_key_def bind_num_is)

lemma revokeKey_failed:
  "revokeKey (Some m) n st = (st, Json 500 [(''error'', JStr m)])"
  by (simp add: revokeKey_def delete_key_def)

text \<open>
  C8. Revoking never changes the \<^verbatim>\<open>users\<close> table. When the \<^verbatim>\<open>DELETE\<close> is not failed
  from outside it answers success and removes exactly the key rows with the given id; when
  no key row has that id the store is returned as it was; and revoking again answers
  success and changes nothing more.
\<close>

theorem revokeKey_deletes_key_only:
  "users (fst (revokeKey flt n st)) = users st \<and>
   (flt = None \<longrightarrow>
      snd (revokeKey flt n st) = success \<and>
      apikeys (fst (revokeKey flt n st)) = filter (\<lambda>a. n \<noteq> JInt (k_id a)) (apikeys st) \<and>
      ((\<forall>a\<in>set (apikeys st). n \<noteq> JInt (k_id a)) \<longrightarrow> fst (revokeKey flt n st) = st) \<and>
      revokeKey None n (fst (revokeKey flt n st)) = (fst (revokeKey flt n st), success))"
proof (cases flt)
  case None
  have "(\<forall>a\<in>set (apikeys st). n \<noteq> JInt (k_id a)) \<longrightarrow>
          st\<lparr>apikeys := filter (\<lambda>a. n \<noteq> JInt (k_id a)) (apikeys st)\<rparr> = st"
    by simp
  then show ?thesis using None by (simp add: revokeKey_ok)
next
  case (Some m)
  then show ?thesis by (simp add: revokeKey_failed)
qed

theorem revokeKey_deletes_key_only_witness:
  "snd (revokeKey None (JInt 1) example_store) = success \<and>
   apikeys (fst (revokeKey None (JInt 1) example_store)) = [] \<and>
   users (fst (revokeKey None (JInt 1) example_store)) = [ann, bob] \<and>
   fst (revokeKey None (JInt 2) example_store) = example_store"
proof -
  have a: "filter (\<lambda>a. JInt 1 \<noteq> JInt (k_id a)) (apikeys example_store) = []"
    by (simp add: store_defs)
  have b: "\<forall>a\<in>set (apikeys example_store). JInt 2 \<noteq> JInt (k_id a)"
    by (simp add: store_defs)
  have u: "users example_store = [ann, bob]"
    by (simp add: example_store_def)
  from revokeKey_deletes_key_only [of None "JInt 1" example_store]
       revokeKey_deletes_key_only [of None "JInt 2" example_store] a b u
  show ?thesis by simp
qed


subsection \<open>Deleting a user\<close>

lemmas delete_defs = deleteUser_def pragma_foreign_keys_on_def begin_transaction_def rollback_def
  commit_def fire_and_forget_def delete_key_def delete_user_def bind_num_is

text \<open>
  What the handler does on a connection with no transaction open, when \<^verbatim>\<open>COMMIT\<close> is
  carried out or not reached. A falsy id (0 or not a number) is answered 400
  \<^verbatim>\<open>invalid id\<close> and nothing is touched. Otherwise the two deletes run between
  \<^verbatim>\<open>BEGIN\<close> and \<^verbatim>\<open>COMMIT\<close>: when both and the \<^verbatim>\<open>COMMIT\<close> are carried out, the key rows
  and the user rows with that id are gone; when the first delete fails, or the first is
  carried out and the second fails, \<^verbatim>\<open>ROLLBACK\<close> gives back both tables as they were and
  the answer is 500. Only the \<^verbatim>\<open>foreign_keys\<close> setting of the connection stays on.
\<close>

lemma deleteUser_transaction:
  assumes "txn st = None"
  shows "(\<not> truthy_num n \<longrightarrow>
            deleteUser f_keys f_user f_commit n st =
              (st, Json 400 [(''error'', JStr ''invalid id'')])) \<and>
         (truthy_num n \<and> f_keys = None \<and> f_user = None \<and> f_commit = None \<longrightarrow>
            deleteUser f_keys f_user f_commit n st =
              (st\<lparr>users := filter (\<lambda>u. n \<noteq> JInt (u_id u)) (users st),
                  apikeys := filter (\<lambda>a. n \<noteq> JInt (k_id a)) (apikeys st),
                  foreign_keys := True\<rparr>, success)) \<and>
         (\<forall>m. truthy_num n \<and> f_keys = Some m \<longrightarrow>
            deleteUser f_keys f_user f_commit n st =
              (st\<lparr>foreign_keys := True\<rparr>,
               Json 500 [(''error'', JStr ''delete_keys_failed''), (''details'', JStr m)])) \<and>
         (\<forall>m. truthy_num n \<and> f_keys = None \<and> f_user = Some m \<longrightarrow>
            deleteUser f_keys f_user f_commit n st =
              (st\<lparr>foreign_keys := True\<rparr>,
               Json 500 [(''error'', JStr ''delete_user_failed''), (''details'', JStr m)]))"
  using assms by (simp add: delete_defs Let_def)

lemma deleteUser_examples:
  "deleteUser None None None NaN example_store =
     (example_store, Json 400 [(''error'', JStr ''invalid id'')]) \<and>
   deleteUser None None None (JInt 0) example_store =
     (example_store, Json 400 [(''error'', JStr ''invalid id'')]) \<and>
   deleteUser None None None (JInt 1) example_store =
     (example_store\<lparr>users := [bob], apikeys := [], foreign_keys := True\<rparr>, success) \<and>
   deleteUser (Some ''SQLITE_BUSY: database is locked'') None None (JInt 1) example_store =
     (example_store\<lparr>foreign_keys := True\<rparr>,
      Json 500 [(''error'', JStr ''delete_keys_failed''),
                (''details'', JStr ''SQLITE_BUSY: database is locked'')]) \<and>
   deleteUser None (Some ''SQLITE_BUSY: database is locked'') None (JInt 1) example_store =
     (example_store\<lparr>foreign_keys := True\<rparr>,
      Json 500 [(''error'', JStr ''delete_user_failed''),
                (''details'', JStr ''SQLITE_BUSY: database is locked'')])"
proof -
  have t: "txn example_store = None" by (simp add: example_store_def)
  have u: "filter (\<lambda>u. JInt 1 \<noteq> JInt (u_id u)) (users example_store) = [bob]"
    by (simp add: store_defs)
  have k: "filter (\<lambda>a. JInt 1 \<noteq> JInt (k_id a)) (apikeys example_store) = []"
    by (simp add: store_defs)
  from deleteUser_transaction [OF t, of NaN None None None]
       deleteUser_transaction [OF t, of "JInt 0" None None None]
       deleteUser_transaction [OF t, of "JInt 1" None None None]
       deleteUser_transaction
         [OF t, of "JInt 1" "Some ''SQLITE_BUSY: database is locked''" None None]
       deleteUser_transaction
         [OF t, of "JInt 1" None "Some ''SQLITE_BUSY: database is locked''" None]
  show ?thesis unfolding u k by (simp add: truthy_num_def)
qed

text \<open>
  C4. The handler answers \<^verbatim>\<open>success\<close> without waiting for \<^verbatim>\<open>COMMIT\<close> and without a
  callback for it, unlike the two deletes of the same handler, whose errors it checks and
  rolls back. On a connection with no transaction open and with a truthy id, when both
  deletes are carried out and the store fails the \<^verbatim>\<open>COMMIT\<close>, the answer is
  \<^verbatim>\<open>success\<close> all the same, while the transaction is still open and nothing is committed:
  rolling it back, as the end of the connection does, gives back both tables as they were
  before the call, with the rows that were to be deleted.
\<close>

theorem deleteUser_commit_failed:
  assumes "txn st = None" and "truthy_num n" and "f_commit = Some m"
  shows "deleteUser None None f_commit n st =
           (st\<lparr>users := filter (\<lambda>u. n \<noteq> JInt (u_id u)) (users st),
               apikeys := filter (\<lambda>a. n \<noteq> JInt (k_id a)) (apikeys st),
               foreign_keys := True,
               txn := Some (users st, apikeys st, user_seq st)\<rparr>, success) \<and>
         rollback (fst (deleteUser None None f_commit n st)) = st\<lparr>foreign_keys := True\<rparr>"
  using assms by (simp add: delete_defs Let_def)

text \<open>
  Ann, who has a key, is deleted while another connection reads: the answer is
  \<^verbatim>\<open>success\<close>, and after the rollback of the transaction left open Ann and her key are
  in the tables as before.
\<close>

theorem deleteUser_commit_failed_witness:
  "snd (deleteUser None None (Some ''SQLITE_BUSY: database is locked'') (JInt 1) example_store)
     = success \<and>
   txn (fst (deleteUser None None (Some ''SQLITE_BUSY: database is locked'') (JInt 1)
               example_store)) = Some ([ann, bob], [ann_key], 2) \<and>
   users (rollback (fst (deleteUser None None (Some ''SQLITE_BUSY: database is locked'')
                           (JInt 1) example_store))) = [ann, bob] \<and>
   apikeys (rollback (fst (deleteUser None None (Some ''SQLITE_BUSY: database is locked'')
                             (JInt 1) example_store))) = [ann_key]"
proof -
  have t: "txn example_store = None" by (simp add: example_store_def)
  have n: "truthy_num (JInt 1)" by (simp add: truthy_num_def)
  note c = deleteUser_commit_failed [OF t n refl, of "''SQLITE_BUSY: database is locked''"]
  from c have a: "snd (deleteUser None None (Some ''SQLITE_BUSY: database is locked'') (JInt 1)
                         example_store) = success"
    and b: "txn (fst (deleteUser None None (Some ''SQLITE_BUSY: database is locked'') (JInt 1)
                        example_store))
              = Some (users example_store, apikeys example_store, user_seq example_store)"
    by simp_all
  from c have r: "rollback (fst (deleteUser None None (Some ''SQLITE_BUSY: database is locked'')
                                  (JInt 1) example_store))
                    = example_store\<lparr>foreign_keys := True\<rparr>"
    by (rule conjunct2)
  show ?thesis unfolding r using a b by (simp add: example_store_def)
qed

text \<open>
  A handler leaves no transaction open, unless it is the delete of a user whose
  \<^verbatim>\<open>COMMIT\<close> fails. So the hypothesis that none is open holds for every store reached from
  \<^const>\<open>empty_store\<close> by the handlers as long as no \<^verbatim>\<open>COMMIT\<close> has failed.
\<close>

lemma no_transaction_left_open:
  assumes "txn st = None"
  shows "txn (fst (saveUser flts b now st)) = None"
    and "txn (fst (validateKey f_get f_upd key now st)) = None"
    and "txn (fst (listUsers flt now st)) = None"
    and "txn (fst (revokeKey flt n st)) = None"
    and "txn (fst (exportCsv flt dt st)) = None"
    and "f_commit = None \<Longrightarrow> txn (fst (deleteUser f_keys f_user f_commit n st)) = None"
proof -
  show "txn (fst (saveUser flts b now st)) = None"
    using assms
    by (auto simp: saveUser_def insert_user_def insert_key_def delete_user_def select_saved_def
          fire_and_forget_def Let_def split: option.splits sum.splits if_splits)
  show "txn (fst (validateKey f_get f_upd key now st)) = None"
    using assms
    by (auto simp: validateKey_def select_key_def update_seen_def fire_and_forget_def
          split: option.splits sum.splits if_splits)
  show "txn (fst (listUsers flt now st)) = None"
    using assms by (auto simp: listUsers_def select_listed_def split: option.splits)
  show "txn (fst (revokeKey flt n st)) = None"
    using assms by (auto simp: revokeKey_def delete_key_def split: option.splits)
  show "txn (fst (exportCsv flt dt st)) = None"
    using assms by (auto simp: exportCsv_def select_exported_def split: option.splits)
  show "f_commit = None \<Longrightarrow> txn (fst (deleteUser f_keys f_user f_commit n st)) = None"
    using assms by (auto simp: delete_defs Let_def split: option.splits)
qed


subsection \<open>The guard of the administrator's routes\<close>

lemma requireAdmin_iff:
  "requireAdmin sess nxt st =
     (if \<exists>s i. sess = Some s \<and> adminId s = Some i \<and> i \<noteq> 0 then nxt st else (st, unauthorized))"
  by (auto simp: requireAdmin_def split: option.splits)

text \<open>
  C7. Each of the four routes of the administrator (list, revoke, export, delete) is the
  guard applied to its operation: with a session that carries an admin id (a number other
  than 0) the route is the operation itself; with any other session, or none, the answer is
  401 \<^verbatim>\<open>Unauthorized\<close> and the store is not touched.
\<close>

theorem admin_routes_guarded:
  "((\<exists>s i. sess = Some s \<and> adminId s = Some i \<and> i \<noteq> 0) \<longrightarrow>
      route_users sess flt now st = listUsers flt now st \<and>
      route_revoke sess flt n st = revokeKey flt n st \<and>
      route_export sess flt dt st = exportCsv flt dt st \<and>
      route_delete sess f_keys f_user f_commit n st =
        deleteUser f_keys f_user f_commit n st) \<and>
   (\<not> (\<exists>s i. sess = Some s \<and> adminId s = Some i \<and> i \<noteq> 0) \<longrightarrow>
      route_users sess flt now st = (st, unauthorized) \<and>
      route_revoke sess flt n st = (st, unauthorized) \<and>
      route_export sess flt dt st = (st, unauthorized) \<and>
      route_delete sess f_keys f_user f_commit n st = (st, unauthorized)) \<and>
   status unauthorized = 401"
proof -
  have st: "status unauthorized = 401" by (simp add: unauthorized_def status_def)
  show ?thesis
  proof (cases "\<exists>s i. sess = Some s \<and> adminId s = Some i \<and> i \<noteq> 0")
    case True
    then have "\<And>nxt. requireAdmin sess nxt st = nxt st" by (simp only: requireAdmin_iff if_True)
    with True st show ?thesis
      unfolding route_users_def route_revoke_def route_export_def route_delete_def by blast
  next
    case False
    then have "\<And>nxt. requireAdmin sess nxt st = (st, unauthorized)"
      by (simp only: requireAdmin_iff if_False)
    with False st show ?thesis
      unfolding route_users_def route_revoke_def route_export_def route_delete_def by blast
  qed
qed

theorem admin_routes_guarded_witness:
  "route_users None None 0 example_store = (example_store, unauthorized) \<and>
   route_revoke (Some \<lparr>adminId = None, adminEmail = None\<rparr>) None (JInt 1) example_store
      = (example_store, unauthorized) \<and>
   route_export None None stamp example_store = (example_store, unauthorized) \<and>
   route_delete None None None None (JInt 1) example_store = (example_store, unauthorized) \<and>
   route_revoke (Some \<lparr>adminId = Some 1, adminEmail = Some ''root@example.org''\<rparr>) None (JInt 1)
      example_store = revokeKey None (JInt 1) example_store \<and>
   route_delete (Some \<lparr>adminId = Some 1, adminEmail = Some ''root@example.org''\<rparr>) None None
      None (JInt 1) example_store = deleteUser None None None (JInt 1) example_store"
  using admin_routes_guarded [of None None 0 example_store "JInt 1" stamp None None None]
    admin_routes_guarded [of "Some \<lparr>adminId = None, adminEmail = None\<rparr>" None 0 example_store "JInt 1" stamp None None None]
    admin_routes_guarded [of "Some \<lparr>adminId = Some 1, adminEmail = Some ''root@example.org''\<rparr>" None 0 example_store "JInt 1" stamp None None None]
  by simp


subsection \<open>Listing the users\<close>

lemma left_join_iff:
  "(u, a) \<in> set (left_join us ks) \<longleftrightarrow>
     u \<in> set us \<and>
     (case a of None \<Rightarrow> \<forall>k\<in>set ks. k_id k \<noteq> u_id u
              | Some k \<Rightarrow> k \<in> set ks \<and> k_id k = u_id u)"
proof -
  have one: "\<And>v. (u, a) \<in> set (case filter (\<lambda>k. k_id k = u_id v) ks of
                                  [] \<Rightarrow> [(v, None)] | m \<Rightarrow> map (\<lambda>k. (v, Some k)) m) \<longleftrightarrow>
       u = v \<and> (case a of None \<Rightarrow> \<forall>k\<in>set ks. k_id k \<noteq> u_id u
                          | Some k \<Rightarrow> k \<in> set ks \<and> k_id k = u_id u)"
  proof -
    fix v
    show "(u, a) \<in> set (case filter (\<lambda>k. k_id k = u_id v) ks of
                                  [] \<Rightarrow> [(v, None)] | m \<Rightarrow> map (\<lambda>k. (v, Some k)) m) \<longleftrightarrow>
       u = v \<and> (case a of None \<Rightarrow> \<forall>k\<in>set ks. k_id k \<noteq> u_id u
                          | Some k \<Rightarrow> k \<in> set ks \<and> k_id k = u_id u)"
    proof (cases "filter (\<lambda>k. k_id k = u_id v) ks")
      case Nil
      then have "\<forall>k\<in>set ks. k_id k \<noteq> u_id v" by (simp add: filter_empty_conv)
      with Nil show ?thesis by (auto split: option.splits)
    next
      case (Cons k m)
      then have s: "set (k # m) = {x \<in> set ks. k_id x = u_id v}"
        by (metis set_filter)
      then have ex: "\<exists>x\<in>set ks. k_id x = u_id v" by auto
      have "(u, a) \<in> set (map (\<lambda>k. (v, Some k)) (k # m)) \<longleftrightarrow>
              u = v \<and> (\<exists>x\<in>set (k # m). a = Some x)" by auto
      also have "\<dots> \<longleftrightarrow> u = v \<and> (case a of None \<Rightarrow> \<forall>k\<in>set ks. k_id k \<noteq> u_id u
                          | Some k \<Rightarrow> k \<in> set ks \<and> k_id k = u_id u)"
        unfolding s using ex by (cases a) auto
      finally show ?thesis using Cons by simp
    qed
  qed
  show ?thesis
    unfolding left_join_def by (simp add: one)
qed

lemma order_by_id_sorted: "sorted (map (\<lambda>j. u_id (fst j)) (order_by_id js))"
  by (simp add: order_by_id_def)

lemma order_by_id_set: "set (order_by_id js) = set js"
  by (simp add: order_by_id_def)

lemma at_most_one_key:
  "distinct (map k_id ks) \<Longrightarrow> length (filter (\<lambda>k. k_id k = i) ks) \<le> 1"
proof (induction ks)
  case Nil
  show ?case by simp
next
  case (Cons k ks)
  show ?case
  proof (cases "k_id k = i")
    case True
    from Cons.prems have "k_id k \<notin> set (map k_id ks)" by simp
    then have "\<forall>x\<in>set ks. k_id x \<noteq> k_id k" by (metis image_eqI set_map)
    with True have "\<forall>x\<in>set ks. k_id x \<noteq> i" by simp
    then have "filter (\<lambda>k. k_id k = i) ks = []" by (simp add: filter_empty_conv)
    with True show ?thesis by simp
  next
    case False
    with Cons show ?thesis by simp
  qed
qed

lemma left_join_length:
  assumes "distinct (map k_id ks)"
  shows "length (left_join us ks) = length us"
proof -
  have one: "\<And>u. length (case filter (\<lambda>k. k_id k = u_id u) ks of
                              [] \<Rightarrow> [(u, None)] | m \<Rightarrow> map (\<lambda>k. (u, Some k)) m) = 1"
  proof -
    fix u
    show "length (case filter (\<lambda>k. k_id k = u_id u) ks of
                              [] \<Rightarrow> [(u, None)] | m \<Rightarrow> map (\<lambda>k. (u, Some k)) m) = 1"
    proof (cases "filter (\<lambda>k. k_id k = u_id u) ks")
      case Nil
      then show ?thesis by simp
    next
      case (Cons a m)
      with at_most_one_key [OF assms, of "u_id u"] have "length (a # m) \<le> 1" by simp
      then have "m = []" by simp
      with Cons show ?thesis by simp
    qed
  qed
  show ?thesis
    unfolding left_join_def by (induction us) (simp_all add: one)
qed

lemma listed_fields:
  "field (listed_columns now j) ''id'' = Some (SInt (u_id (fst j)))"
  "field (listed_columns now j) ''firstname'' = Some (SText (firstname (fst j)))"
  "field (listed_columns now j) ''lastname'' = Some (SText (lastname (fst j)))"
  "field (listed_columns now j) ''email'' = Some (SText (email (fst j)))"
  "field (listed_columns now j) ''last_seen'' = Some (time_or_null (last_seen (fst j)))"
  "field (listed_columns now j) ''online_now'' = Some (SInt (online_now now (last_seen (fst j))))"
  "field (listed_columns now j) ''user_created_at'' = Some (STime (u_created_at (fst j)))"
  "field (listed_columns now j) ''api_key'' = Some (a_api_key (snd j))"
  "field (listed_columns now j) ''apikey_created_at'' = Some (a_created_at (snd j))"
  by (simp_all add: field_def listed_columns_def)

lemma online_now_iff:
  "online_now now seen = (if \<exists>t. seen = Some t \<and> now - t \<le> 2592000 then 1 else 0)"
  by (simp add: online_now_def ONLINE_WINDOW_SECONDS_def split: option.splits)

text \<open>
  C5. When the query is not failed from outside, the list is answered with status 200 and
  the rows are those of the left join in ascending order of the user's id: a user with a key
  row of the same id appears with that key, a user without one appears once with no key,
  and with unique key ids there is one row for each user. Each row carries the user's
  columns, the key and its creation time or NULL, and \<^verbatim>\<open>online_now\<close>, which is 1 exactly
  when \<^verbatim>\<open>last_seen\<close> is not NULL and at most 30 days (2592000 seconds) before the time of
  the query, and 0 otherwise.
\<close>

theorem listUsers_ordered_join:
  "\<exists>js. listUsers None now st = (st, Json 200 [(''users'', JRows (map (listed_columns now) js))]) \<and>
        sorted (map (\<lambda>j. u_id (fst j)) js) \<and>
        (distinct (map k_id (apikeys st)) \<longrightarrow> length js = length (users st)) \<and>
        (\<forall>u a. (u, a) \<in> set js \<longleftrightarrow>
             u \<in> set (users st) \<and>
             (case a of None \<Rightarrow> \<forall>k\<in>set (apikeys st). k_id k \<noteq> u_id u
                      | Some k \<Rightarrow> k \<in> set (apikeys st) \<and> k_id k = u_id u)) \<and>
        (\<forall>u a. field (listed_columns now (u, a)) ''id'' = Some (SInt (u_id u)) \<and>
             field (listed_columns now (u, a)) ''firstname'' = Some (SText (firstname u)) \<and>
             field (listed_columns now (u, a)) ''lastname'' = Some (SText (lastname u)) \<and>
             field (listed_columns now (u, a)) ''email'' = Some (SText (email u)) \<and>
             field (listed_columns now (u, a)) ''user_created_at'' = Some (STime (u_created_at u)) \<and>
             field (listed_columns now (u, a)) ''last_seen''
               = Some (case last_seen u of None \<Rightarrow> SNull | Some t \<Rightarrow> STime t) \<and>
             field (listed_columns now (u, a)) ''api_key''
               = Some (case a of None \<Rightarrow> SNull | Some k \<Rightarrow> SText (api_key k)) \<and>
             field (listed_columns now (u, a)) ''apikey_created_at''
               = Some (case a of None \<Rightarrow> SNull | Some k \<Rightarrow> STime (k_created_at k)) \<and>
             field (listed_columns now (u, a)) ''online_now''
               = Some (SInt (if \<exists>t. last_seen u = Some t \<and> now - t \<le> 30 * 24 * 3600
                             then 1 else 0)))"
proof (intro exI conjI)
  let ?js = "order_by_id (left_join (users st) (apikeys st))"
  show "listUsers None now st = (st, Json 200 [(''users'', JRows (map (listed_columns now) ?js))])"
    by (simp add: listUsers_def select_listed_def)
  show "sorted (map (\<lambda>j. u_id (fst j)) ?js)" by (rule order_by_id_sorted)
  show "distinct (map k_id (apikeys st)) \<longrightarrow> length ?js = length (users st)"
    by (simp add: order_by_id_def left_join_length)
  show "\<forall>u a. (u, a) \<in> set ?js \<longleftrightarrow>
             u \<in> set (users st) \<and>
             (case a of None \<Rightarrow> \<forall>k\<in>set (apikeys st). k_id k \<noteq> u_id u
                      | Some k \<Rightarrow> k \<in> set (apikeys st) \<and> k_id k = u_id u)"
    by (simp only: order_by_id_set left_join_iff) simp
  show "\<forall>u a. field (listed_columns now (u, a)) ''id'' = Some (SInt (u_id u)) \<and>
             field (listed_columns now (u, a)) ''firstname'' = Some (SText (firstname u)) \<and>
             field (listed_columns now (u, a)) ''lastname'' = Some (SText (lastname u)) \<and>
             field (listed_columns now (u, a)) ''email'' = Some (SText (email u)) \<and>
             field (listed_columns now (u, a)) ''user_created_at'' = Some (STime (u_created_at u)) \<and>
             field (listed_columns now (u, a)) ''last_seen''
               = Some (case last_seen u of None \<Rightarrow> SNull | Some t \<Rightarrow> STime t) \<and>
             field (listed_columns now (u, a)) ''api_key''
               = Some (case a of None \<Rightarrow> SNull | Some k \<Rightarrow> SText (api_key k)) \<and>
             field (listed_columns now (u, a)) ''apikey_created_at''
               = Some (case a of None \<Rightarrow> SNull | Some k \<Rightarrow> STime (k_created_at k)) \<and>
             field (listed_columns now (u, a)) ''online_now''
               = Some (SInt (if \<exists>t. last_seen u = Some t \<and> now - t \<le> 30 * 24 * 3600
                             then 1 else 0))"
    by (simp add: listed_fields online_now_iff time_or_null_def a_api_key_def a_created_at_def)
qed

text \<open>The primary key of \<^verbatim>\<open>apikeys\<close>: the handlers that write key rows keep their ids distinct.\<close>

lemma key_ids_stay_distinct:
  assumes "distinct (map k_id (apikeys st))"
  shows "distinct (map k_id (apikeys (fst (saveUser flts b now st))))"
    and "distinct (map k_id (apikeys (fst (validateKey f_get f_upd key now st))))"
    and "distinct (map k_id (apikeys (fst (revokeKey flt n st))))"
proof -
  show "distinct (map k_id (apikeys (fst (saveUser flts b now st))))"
    using assms
    by (auto simp: saveUser_def insert_user_def insert_key_def delete_user_def select_saved_def
          fire_and_forget_def Let_def distinct_map_filter
          split: option.splits sum.splits if_splits)
  show "distinct (map k_id (apikeys (fst (validateKey f_get f_upd key now st))))"
    using assms
    by (auto simp: validateKey_def select_key_def update_seen_def fire_and_forget_def
          split: option.splits sum.splits if_splits)
  show "distinct (map k_id (apikeys (fst (revokeKey flt n st))))"
    using assms
    by (auto simp: revokeKey_def delete_key_def distinct_map_filter split: option.splits)
qed

theorem listUsers_ordered_join_witness:
  "listUsers None 2592150 example_store =
     (example_store,
      Json 200 [(''users'', JRows [listed_columns 2592150 (ann, Some ann_key),
                                   listed_columns 2592150 (bob, None)])]) \<and>
   field (listed_columns 2592150 (ann, Some ann_key)) ''online_now'' = Some (SInt 0) \<and>
   field (listed_columns 2592150 (ann, Some ann_key)) ''api_key''
     = Some (SText ''UWUNTU-API-0123456789ABCDEF'') \<and>
   field (listed_columns 2592150 (bob, None)) ''online_now'' = Some (SInt 1) \<and>
   field (listed_columns 2592150 (bob, None)) ''api_key'' = Some SNull \<and>
   field (listed_columns 2592151 (bob, None)) ''online_now'' = Some (SInt 0)"
proof -
  have rows: "order_by_id (left_join (users example_store) (apikeys example_store))
                = [(ann, Some ann_key), (bob, None)]"
    by (simp add: order_by_id_def left_join_def store_defs)
  have l: "listUsers None 2592150 example_store =
     (example_store,
      Json 200 [(''users'', JRows [listed_columns 2592150 (ann, Some ann_key),
                                   listed_columns 2592150 (bob, None)])])"
    by (simp add: listUsers_def select_listed_def rows)
  from listUsers_ordered_join [of 2592150 example_store] obtain js where
    f: "\<forall>u a. field (listed_columns 2592150 (u, a)) ''api_key''
               = Some (case a of None \<Rightarrow> SNull | Some k \<Rightarrow> SText (api_key k)) \<and>
             field (listed_columns 2592150 (u, a)) ''online_now''
               = Some (SInt (if \<exists>t. last_seen u = Some t \<and> 2592150 - t \<le> 30 * 24 * 3600
                             then 1 else 0))"
    by blast
  from listUsers_ordered_join [of 2592151 example_store] obtain js' where
    g: "\<forall>u a. field (listed_columns 2592151 (u, a)) ''online_now''
               = Some (SInt (if \<exists>t. last_seen u = Some t \<and> 2592151 - t \<le> 30 * 24 * 3600
                             then 1 else 0))"
    by blast
  from f [rule_format, of ann "Some ann_key"] f [rule_format, of bob None]
       g [rule_format, of bob None] l
  show ?thesis by (simp add: ann_def bob_def ann_key_def)
qed


subsection \<open>Export as CSV\<close>

lemma unquote_rest_doubled: "unquote_rest (double_quotes s @ [dq]) = Some s"
proof (induction s)
  case Nil
  show ?case by (simp add: double_quotes_def)
next
  case (Cons c s)
  show ?case
  proof (cases "c = dq")
    case True
    with Cons show ?thesis by (simp add: double_quotes_def)
  next
    case False
    obtain d ds where "double_quotes s @ [dq] = d # ds"
      by (cases "double_quotes s @ [dq]") auto
    with False Cons show ?thesis by (simp add: double_quotes_def)
  qed
qed

lemma unquote_quoted: "unquote (quoted s) = Some s"
  by (simp add: unquote_def quoted_def unquote_rest_doubled)

lemma exported_fields:
  "field (exported_columns j) ''id'' = Some (SInt (u_id (fst j)))"
  "field (exported_columns j) ''firstname'' = Some (SText (firstname (fst j)))"
  "field (exported_columns j) ''lastname'' = Some (SText (lastname (fst j)))"
  "field (exported_columns j) ''email'' = Some (SText (email (fst j)))"
  "field (exported_columns j) ''user_created_at'' = Some (STime (u_created_at (fst j)))"
  "field (exported_columns j) ''api_key'' = Some (a_api_key (snd j))"
  "field (exported_columns j) ''apikey_created_at'' = Some (a_created_at (snd j))"
  "field (exported_columns j) ''last_seen'' = Some (time_or_null (last_seen (fst j)))"
  by (simp_all add: field_def exported_columns_def)

lemma csv_line_exported:
  "csv_line dt (exported_columns (u, a)) =
     String_int (u_id u) @ '','' @ quoted (firstname u) @ '','' @ quoted (lastname u) @ '','' @
     quoted (email u) @ '','' @ quoted (dt (u_created_at u)) @ '','' @
     (case a of None \<Rightarrow> [] | Some k \<Rightarrow> quoted (api_key k)) @ '','' @
     (case a of None \<Rightarrow> [] | Some k \<Rightarrow> quoted (dt (k_created_at k))) @ '','' @
     (case last_seen u of None \<Rightarrow> [] | Some t \<Rightarrow> quoted (dt t)) @ [nl]"
  by (simp add: csv_line_def exported_fields esc_def interpolate_def String_val_def
        a_api_key_def a_created_at_def time_or_null_def split: option.splits)

text \<open>
  C6, as the handler has it. When the query is not failed from outside, the export is the
  header line followed by one line for each row of the left join, in ascending order of the
  user's id. A line has eight fields separated by commas: the id written bare, without
  quotes; then first name, last name, address and the user's creation time, each between
  double quotes with every double quote inside doubled; then the key, its creation time and
  \<^verbatim>\<open>last_seen\<close>, written the same way when present and as nothing at all (no quotes) when
  NULL. A reader of the quoted field gets the value back.
\<close>

theorem exportCsv_rows:
  "\<exists>js. exportCsv None dt st =
          (st, Csv (csv_header @ concat (map (\<lambda>j. csv_line dt (exported_columns j)) js))) \<and>
        sorted (map (\<lambda>j. u_id (fst j)) js) \<and>
        (\<forall>u a. (u, a) \<in> set js \<longleftrightarrow>
             u \<in> set (users st) \<and>
             (case a of None \<Rightarrow> \<forall>k\<in>set (apikeys st). k_id k \<noteq> u_id u
                      | Some k \<Rightarrow> k \<in> set (apikeys st) \<and> k_id k = u_id u)) \<and>
        (\<forall>u a. csv_line dt (exported_columns (u, a)) =
             String_int (u_id u) @ '','' @ quoted (firstname u) @ '','' @
             quoted (lastname u) @ '','' @ quoted (email u) @ '','' @
             quoted (dt (u_created_at u)) @ '','' @
             (case a of None \<Rightarrow> [] | Some k \<Rightarrow> quoted (api_key k)) @ '','' @
             (case a of None \<Rightarrow> [] | Some k \<Rightarrow> quoted (dt (k_created_at k))) @ '','' @
             (case last_seen u of None \<Rightarrow> [] | Some t \<Rightarrow> quoted (dt t)) @ [nl]) \<and>
        (\<forall>s. unquote (quoted s) = Some s)"
proof (intro exI conjI)
  let ?js = "order_by_id (left_join (users st) (apikeys st))"
  show "exportCsv None dt st =
          (st, Csv (csv_header @ concat (map (\<lambda>j. csv_line dt (exported_columns j)) ?js)))"
    by (simp add: exportCsv_def select_exported_def comp_def)
  show "sorted (map (\<lambda>j. u_id (fst j)) ?js)" by (rule order_by_id_sorted)
  show "\<forall>u a. (u, a) \<in> set ?js \<longleftrightarrow>
             u \<in> set (users st) \<and>
             (case a of None \<Rightarrow> \<forall>k\<in>set (apikeys st). k_id k \<noteq> u_id u
                      | Some k \<Rightarrow> k \<in> set (apikeys st) \<and> k_id k = u_id u)"
    by (simp only: order_by_id_set left_join_iff) simp
  show "\<forall>u a. csv_line dt (exported_columns (u, a)) =
             String_int (u_id u) @ '','' @ quoted (firstname u) @ '','' @
             quoted (lastname u) @ '','' @ quoted (email u) @ '','' @
             quoted (dt (u_created_at u)) @ '','' @
             (case a of None \<Rightarrow> [] | Some k \<Rightarrow> quoted (api_key k)) @ '','' @
             (case a of None \<Rightarrow> [] | Some k \<Rightarrow> quoted (dt (k_created_at k))) @ '','' @
             (case last_seen u of None \<Rightarrow> [] | Some t \<Rightarrow> quoted (dt t)) @ [nl]"
    by (simp only: csv_line_exported) simp
  show "\<forall>s. unquote (quoted s) = Some s" by (simp add: unquote_quoted)
qed

lemmas csv_defs = csv_line_def exported_columns_def field_def esc_def interpolate_def
  String_val_def String_int_def quoted_def double_quotes_def a_api_key_def a_created_at_def
  time_or_null_def stamp_def

text \<open>Bob, whose last name is \<^verbatim>\<open>O"Brien\<close> and who has no key.\<close>

theorem exportCsv_rows_witness:
  "csv_line stamp (exported_columns (bob, None)) =
     ''2,'' @ [dq] @ ''Bob'' @ [dq] @ '','' @ [dq] @ ''O'' @ [dq, dq] @ ''Brien'' @ [dq] @ '','' @
     [dq] @ ''bob@example.org'' @ [dq] @ '','' @ [dq] @ ''@120'' @ [dq] @ '',,,'' @
     [dq] @ ''@150'' @ [dq] @ [nl] \<and>
   unquote ([dq] @ ''O'' @ [dq, dq] @ ''Brien'' @ [dq]) = Some (lastname bob)"
proof -
  from exportCsv_rows [of stamp example_store] obtain js where
    l: "\<forall>u a. csv_line stamp (exported_columns (u, a)) =
             String_int (u_id u) @ '','' @ quoted (firstname u) @ '','' @
             quoted (lastname u) @ '','' @ quoted (email u) @ '','' @
             quoted (stamp (u_created_at u)) @ '','' @
             (case a of None \<Rightarrow> [] | Some k \<Rightarrow> quoted (api_key k)) @ '','' @
             (case a of None \<Rightarrow> [] | Some k \<Rightarrow> quoted (stamp (k_created_at k))) @ '','' @
             (case last_seen u of None \<Rightarrow> [] | Some t \<Rightarrow> quoted (stamp t)) @ [nl]"
    and q: "\<forall>s. unquote (quoted s) = Some s"
    by blast
  have n: "quoted (lastname bob) = [dq] @ ''O'' @ [dq, dq] @ ''Brien'' @ [dq]"
    by (simp add: quoted_def double_quotes_def bob_def dq_def)
  from l [rule_format, of bob None] q [rule_format, of "lastname bob"] n
  show ?thesis
    by (simp add: bob_def quoted_def double_quotes_def stamp_def String_int_def dq_def)
qed

text \<open>
  The export of the example store. Bob's NULL key and NULL key creation time are empty
  fields, not the quoted empty field \<^verbatim>\<open>""\<close>, and the ids are not quoted.
\<close>

theorem exportCsv_null_and_id_counterexample:
  "exportCsv None stamp example_store =
     (example_store,
      Csv (csv_header @
        ''1,'' @ [dq] @ ''Ann'' @ [dq] @ '','' @ [dq] @ ''Lee'' @ [dq] @ '','' @
        [dq] @ ''ann@example.org'' @ [dq] @ '','' @ [dq] @ ''@100'' @ [dq] @ '','' @
        [dq] @ ''UWUNTU-API-0123456789ABCDEF'' @ [dq] @ '','' @ [dq] @ ''@100'' @ [dq] @ '','' @ [nl] @
        ''2,'' @ [dq] @ ''Bob'' @ [dq] @ '','' @ [dq] @ ''O'' @ [dq, dq] @ ''Brien'' @ [dq] @ '','' @
        [dq] @ ''bob@example.org'' @ [dq] @ '','' @ [dq] @ ''@120'' @ [dq] @ '',,,'' @
        [dq] @ ''@150'' @ [dq] @ [nl])) \<and>
   esc stamp (field (exported_columns (bob, None)) ''api_key'') = [] \<and>
   esc stamp (field (exported_columns (bob, None)) ''api_key'') \<noteq> [dq, dq] \<and>
   interpolate stamp (field (exported_columns (bob, None)) ''id'') = ''2'' \<and>
   interpolate stamp (field (exported_columns (bob, None)) ''id'') \<noteq> [dq] @ ''2'' @ [dq]"
proof -
  have rows: "order_by_id (left_join (users example_store) (apikeys example_store))
                = [(ann, Some ann_key), (bob, None)]"
    by (simp add: order_by_id_def left_join_def store_defs)
  have a: "csv_line stamp (exported_columns (ann, Some ann_key)) =
        ''1,'' @ [dq] @ ''Ann'' @ [dq] @ '','' @ [dq] @ ''Lee'' @ [dq] @ '','' @
        [dq] @ ''ann@example.org'' @ [dq] @ '','' @ [dq] @ ''@100'' @ [dq] @ '','' @
        [dq] @ ''UWUNTU-API-0123456789ABCDEF'' @ [dq] @ '','' @ [dq] @ ''@100'' @ [dq] @ '','' @ [nl]"
    by (simp add: csv_defs ann_def ann_key_def dq_def)
  have b: "csv_line stamp (exported_columns (bob, None)) =
        ''2,'' @ [dq] @ ''Bob'' @ [dq] @ '','' @ [dq] @ ''O'' @ [dq, dq] @ ''Brien'' @ [dq] @ '','' @
        [dq] @ ''bob@example.org'' @ [dq] @ '','' @ [dq] @ ''@120'' @ [dq] @ '',,,'' @
        [dq] @ ''@150'' @ [dq] @ [nl]"
    by (simp add: csv_defs bob_def dq_def)
  have e: "exportCsv None stamp example_store =
     (example_store, Csv (csv_header @ csv_line stamp (exported_columns (ann, Some ann_key)) @
        csv_line stamp (exported_columns (bob, None))))"
    by (simp add: exportCsv_def select_exported_def rows)
  have f: "esc stamp (field (exported_columns (bob, None)) ''api_key'') = []"
    by (simp add: csv_defs)
  have i: "interpolate stamp (field (exported_columns (bob, None)) ''id'') = ''2''"
    by (simp add: csv_defs bob_def)
  show ?thesis unfolding e a b f i by (simp add: dq_def)
qed


end
